theory Spec2Isabelle
  imports Complex_Main
begin

section \<open>JavaScript numbers\<close>

text \<open>
  The services compute with JavaScript numbers, which are IEEE 754 doubles. A finite
  double is modelled by the rational it stands for; the three special values are
  constructors of their own. Negative zero is not distinguished from zero.
\<close>

datatype jsnum = NaN | PosInf | NegInf | Num rat

text \<open>
  Rounding to the nearest double. \<open>log2floor n\<close> is the exponent of the highest power of
  two that is at most \<open>n\<close>, for \<open>n\<close> from 1 on, and \<open>exponentOf q\<close> the exponent \<open>e\<close> with
  \<open>2\<^sup>e \<le> |q| < 2\<^sup>e\<^sup>+\<^sup>1\<close>. A double has 53 significant bits, so the doubles around \<open>q\<close> are
  the multiples of \<open>2\<^sup>e\<^sup>-\<^sup>5\<^sup>2\<close>; below \<open>2\<^sup>-\<^sup>1\<^sup>0\<^sup>2\<^sup>2\<close> they are the multiples of \<open>2\<^sup>-\<^sup>1\<^sup>0\<^sup>7\<^sup>4\<close>. The
  nearest multiple is taken, the one with the even significand on a tie.
\<close>

function log2floor :: "int \<Rightarrow> int" where
  "log2floor n = (if n < 2 then 0 else 1 + log2floor (n div 2))"
  by pat_completeness auto
termination
  by (relation "measure nat") auto

declare log2floor.simps [simp del]

definition exponentOf :: "rat \<Rightarrow> int" where
  "exponentOf q =
     (let a = \<bar>q\<bar>
      in if 1 \<le> a then log2floor \<lfloor>a\<rfloor>
         else (let k = log2floor \<lfloor>1 / a\<rfloor>
               in if a * 2 ^ nat k = 1 then - k else - (k + 1)))"

definition roundHalfEven :: "rat \<Rightarrow> int" where
  "roundHalfEven y =
     (let f = \<lfloor>y\<rfloor>; r = y - of_int f
      in if r < 1 / 2 then f else if 1 / 2 < r then f + 1 else if even f then f else f + 1)"

definition dbl :: "rat \<Rightarrow> rat" where
  "dbl q =
     (if q = 0 then 0
      else (let e = max (exponentOf q) (- 1022); ulp = 2 powi (e - 52)
            in of_int (roundHalfEven (q / ulp)) * ulp))"

text \<open>
  The number that an operation returns for the exact result \<open>q\<close>: the nearest double, or
  an infinity when that is \<open>2\<^sup>1\<^sup>0\<^sup>2\<^sup>4\<close> or more in magnitude.
\<close>

definition number :: "rat \<Rightarrow> jsnum" where
  "number q =
     (let d = dbl q
      in if d \<noteq> 0 \<and> 1024 \<le> exponentOf d then (if 0 < d then PosInf else NegInf)
         else Num d)"

text \<open>\<^verbatim>\<open>x + y\<close>\<close>

fun jadd :: "jsnum \<Rightarrow> jsnum \<Rightarrow> jsnum" where
  "jadd NaN _ = NaN"
| "jadd _ NaN = NaN"
| "jadd PosInf NegInf = NaN"
| "jadd NegInf PosInf = NaN"
| "jadd PosInf _ = PosInf"
| "jadd _ PosInf = PosInf"
| "jadd NegInf _ = NegInf"
| "jadd _ NegInf = NegInf"
| "jadd (Num a) (Num b) = number (a + b)"

text \<open>
  \<^verbatim>\<open>x * w\<close> and \<^verbatim>\<open>x / w\<close> with a finite second operand, which is all the code needs.
\<close>

fun jtimes :: "jsnum \<Rightarrow> rat \<Rightarrow> jsnum" where
  "jtimes NaN w = NaN"
| "jtimes PosInf w = (if w = 0 then NaN else if 0 < w then PosInf else NegInf)"
| "jtimes NegInf w = (if w = 0 then NaN else if 0 < w then NegInf else PosInf)"
| "jtimes (Num a) w = number (a * w)"

fun jdivide :: "jsnum \<Rightarrow> rat \<Rightarrow> jsnum" where
  "jdivide NaN w = NaN"
| "jdivide PosInf w = (if 0 \<le> w then PosInf else NegInf)"
| "jdivide NegInf w = (if 0 \<le> w then NegInf else PosInf)"
| "jdivide (Num a) w =
     (if w \<noteq> 0 then number (a / w)
      else if a = 0 then NaN else if 0 < a then PosInf else NegInf)"

text \<open>
  \<^verbatim>\<open>x < y\<close> and \<^verbatim>\<open>x <= y\<close> on numbers: every comparison with \<^verbatim>\<open>NaN\<close> is false.
\<close>

fun jless :: "jsnum \<Rightarrow> jsnum \<Rightarrow> bool" where
  "jless NaN _ = False"
| "jless _ NaN = False"
| "jless PosInf _ = False"
| "jless _ NegInf = False"
| "jless NegInf _ = True"
| "jless _ PosInf = True"
| "jless (Num a) (Num b) = (a < b)"

fun jleq :: "jsnum \<Rightarrow> jsnum \<Rightarrow> bool" where
  "jleq NaN _ = False"
| "jleq _ NaN = False"
| "jleq x y = (\<not> jless y x)"

text \<open>
  \<^verbatim>\<open>Number(x.toFixed(2))\<close>. \<^verbatim>\<open>toFixed\<close> works on the exact value of the double: it
  takes the sign off, picks the integer \<open>n\<close> with \<open>n / 100\<close> nearest to the magnitude, the
  larger one on a tie, prints \<open>n / 100\<close> with two decimals and puts the sign back;
  \<^verbatim>\<open>Number\<close> reads the decimal as the nearest double. A number of magnitude \<open>10\<^sup>2\<^sup>1\<close> or
  more is printed in full and reads back as itself, and so do the special values.
\<close>

definition round2 :: "rat \<Rightarrow> rat" where
  "round2 q = (if q < 0 then - (of_int \<lfloor>- q * 100 + 1 / 2\<rfloor> / 100)
               else of_int \<lfloor>q * 100 + 1 / 2\<rfloor> / 100)"

fun toFixed2 :: "jsnum \<Rightarrow> jsnum" where
  "toFixed2 (Num q) = (if 10 ^ 21 \<le> \<bar>q\<bar> then Num q else Num (dbl (round2 q)))"
| "toFixed2 x = x"

section \<open>Data model\<close>

text \<open>
  The interfaces of \<^verbatim>\<open>types/index.ts\<close>, with the fields that the services write
  besides them (\<^verbatim>\<open>participationCount\<close>, \<^verbatim>\<open>updatedBy\<close>). An optional field is an
  \<open>option\<close>. The field \<open>id'\<close> is the source's \<^verbatim>\<open>id\<close>: a stored document has none, a
  query result carries the document id. Timestamps are ticks of a clock. Several
  interfaces share field names; a shared name is written with its record in front.
\<close>

datatype UserRole = Role_teacher | Role_student | Role_group_leader

record Student =
  account :: string
  name :: string
  surname :: string
  group :: string

record StudentPermission =
  id' :: "string option"
  studentAccount :: string
  canMarkAttendance :: bool
  canEditGrades :: bool
  isGroupLeader :: bool
  role :: UserRole
  createdAt :: nat
  updatedAt :: nat
  createdBy :: "string option"

record AttendanceRecord =
  id' :: "string option"
  studentAccount :: string
  date :: string
  isPresent :: "bool option"
  participationCount :: "int option"
  createdAt :: "nat option"
  updatedAt :: nat
  updatedBy :: string

record GradeRecord =
  id' :: "string option"
  studentAccount :: string
  midterm :: "jsnum option"
  final :: "jsnum option"
  assignment1 :: "jsnum option"
  assignment2 :: "jsnum option"
  assignment3 :: "jsnum option"
  project :: "jsnum option"
  participation :: "jsnum option"
  total :: "jsnum option"
  updatedAt :: nat
  updatedBy :: string

text \<open>Of the Firebase \<^verbatim>\<open>User\<close> that \<^verbatim>\<open>AuthUser\<close> extends, the fields that carry data.\<close>

record AuthUser =
  uid :: string
  email :: string
  displayName :: string
  role :: UserRole
  studentAccount :: "string option"

datatype GradeType =
  Midterm | Final | Assignment1 | Assignment2 | Assignment3 | Project | Participation

record AttendanceFilter =
  date :: "string option"
  studentAccount :: "string option"
  group :: "string option"

text \<open>A calendar day, which is all that \<^verbatim>\<open>format(date, 'yyyy-MM-dd')\<close> reads of a date.\<close>

record Date =
  year :: int
  month :: int
  day :: int

section \<open>Aggregation: participation score\<close>

text \<open>
  \<^verbatim>\<open>getParticipationScore\<close> of the attendance page. The argument is a count of
  contributions; counts are integers, so the argument is an \<^typ>\<open>int\<close>. The branches
  are kept in the order of the source, including the final \<^verbatim>\<open>return 0\<close>.
\<close>

definition getParticipationScore :: "int \<Rightarrow> int" where
  "getParticipationScore count =
     (if count \<le> 0 then 0
      else if count = 1 then 3
      else if count = 2 then 6
      else if count = 3 then 9
      else if count \<ge> 4 then 10
      else 0)"

section \<open>Grade records and the weighted total\<close>

text \<open>\<^verbatim>\<open>gradeRecord[key]\<close> for a key that is a grade type.\<close>

fun grade_of :: "GradeType \<Rightarrow> GradeRecord \<Rightarrow> jsnum option" where
  "grade_of Midterm r = midterm r"
| "grade_of Final r = final r"
| "grade_of Assignment1 r = assignment1 r"
| "grade_of Assignment2 r = assignment2 r"
| "grade_of Assignment3 r = assignment3 r"
| "grade_of Project r = project r"
| "grade_of Participation r = participation r"

text \<open>
  The weight table of \<^verbatim>\<open>calculateTotal\<close>, in the order of \<^verbatim>\<open>Object.entries\<close>. A
  decimal literal of the source is the double nearest to it.
\<close>

definition weights :: "(GradeType \<times> rat) list" where
  "weights =
     [(Midterm, dbl (3 / 10)), (Final, dbl (4 / 10)), (Assignment1, dbl (1 / 10)),
      (Assignment2, dbl (1 / 10)), (Assignment3, dbl (5 / 100)), (Project, dbl (15 / 100)),
      (Participation, dbl (5 / 100))]"

text \<open>
  One round of the \<^verbatim>\<open>forEach\<close>: a category counts when its value is a number other
  than \<^verbatim>\<open>NaN\<close>. The sum of the weights stays far below the range where a double
  overflows, so it is kept as the rational of a double.
\<close>

fun total_step :: "GradeRecord \<Rightarrow> jsnum \<times> rat \<Rightarrow> GradeType \<times> rat \<Rightarrow> jsnum \<times> rat" where
  "total_step r (tot, totalWeight) (key, weight) =
     (case grade_of key r of
        Some grade \<Rightarrow>
          if grade \<noteq> NaN then (jadd tot (jtimes grade weight), dbl (totalWeight + weight))
          else (tot, totalWeight)
      | None \<Rightarrow> (tot, totalWeight))"

definition calculateTotal :: "GradeRecord \<Rightarrow> jsnum" where
  "calculateTotal r =
     (case foldl (total_step r) (Num 0, 0) weights of
        (tot, totalWeight) \<Rightarrow>
          if 0 < totalWeight then toFixed2 (jdivide tot totalWeight) else Num 0)"

text \<open>
  The weighted total in the words of the specification, for comparison with
  \<^const>\<open>calculateTotal\<close>: the categories present, the value and the decimal weight of
  each, and the exact quotient of the weighted sum by the sum of the weights present.
\<close>

definition category_present :: "GradeRecord \<Rightarrow> GradeType \<Rightarrow> bool" where
  "category_present r k =
     (case grade_of k r of None \<Rightarrow> False | Some NaN \<Rightarrow> False | Some _ \<Rightarrow> True)"

definition spec_weight :: "GradeType \<Rightarrow> rat" where
  "spec_weight k =
     (case k of Midterm \<Rightarrow> 30 / 100 | Final \<Rightarrow> 40 / 100 | Assignment1 \<Rightarrow> 10 / 100
      | Assignment2 \<Rightarrow> 10 / 100 | Assignment3 \<Rightarrow> 5 / 100 | Project \<Rightarrow> 15 / 100
      | Participation \<Rightarrow> 5 / 100)"

definition categories :: "GradeType list" where
  "categories = [Midterm, Final, Assignment1, Assignment2, Assignment3, Project, Participation]"

definition category_value :: "GradeRecord \<Rightarrow> GradeType \<Rightarrow> rat" where
  "category_value r k = (case grade_of k r of Some (Num v) \<Rightarrow> v | _ \<Rightarrow> 0)"

definition weighted_quotient :: "GradeRecord \<Rightarrow> rat" where
  "weighted_quotient r =
     (\<Sum>k \<leftarrow> filter (category_present r) categories. category_value r k * spec_weight k) /
     (\<Sum>k \<leftarrow> filter (category_present r) categories. spec_weight k)"

text \<open>
  The same quotient in double arithmetic: the products of the scores present with the
  doubles of their weights, added from the left in the order of the table, divided by
  the sum of those weights, added in the same way.
\<close>

definition category_score :: "GradeRecord \<Rightarrow> GradeType \<Rightarrow> jsnum" where
  "category_score r k = (case grade_of k r of None \<Rightarrow> NaN | Some g \<Rightarrow> g)"

definition double_sum :: "GradeRecord \<Rightarrow> jsnum" where
  "double_sum r =
     foldl jadd (Num 0)
       (map (\<lambda>k. jtimes (category_score r k) (dbl (spec_weight k)))
          (filter (category_present r) categories))"

definition double_weight :: "GradeRecord \<Rightarrow> rat" where
  "double_weight r =
     foldl (\<lambda>a w. dbl (a + w)) 0
       (map (\<lambda>k. dbl (spec_weight k)) (filter (category_present r) categories))"

definition double_quotient :: "GradeRecord \<Rightarrow> jsnum" where
  "double_quotient r = jdivide (double_sum r) (double_weight r)"

definition blankGrade :: "string \<Rightarrow> GradeRecord" where
  "blankGrade a =
     \<lparr>GradeRecord.id' = None, studentAccount = a, midterm = None, final = None, assignment1 = None,
      assignment2 = None, assignment3 = None, project = None, participation = None,
      total = None, updatedAt = 0, updatedBy = []\<rparr>"

section \<open>The document store\<close>

text \<open>
  The services reach Firestore through \<^verbatim>\<open>getDoc\<close>, \<^verbatim>\<open>getDocs\<close>, \<^verbatim>\<open>setDoc\<close> and
  \<^verbatim>\<open>updateDoc\<close>. A collection is modelled as a list of documents, each with its id,
  and every id occurs at most once in a well-formed collection. Each access to the
  backend can fail: the store carries the outcomes of the coming accesses, one entry per
  access, \<open>None\<close> for an access that goes through and \<open>Some e\<close> for one that is rejected
  with the error \<open>e\<close>; once the list is used up every access goes through. Asynchronous
  calls are run to completion one after the other.
\<close>

record fserror =
  code :: string
  message :: string

record 'd store =
  docs :: "(string \<times> 'd) list"
  faults :: "fserror option list"

definition access :: "'d store \<Rightarrow> fserror option \<times> 'd store" where
  "access st = (case faults st of [] \<Rightarrow> (None, st) | f # fs \<Rightarrow> (f, st\<lparr>faults := fs\<rparr>))"

fun put :: "string \<Rightarrow> 'd \<Rightarrow> (string \<times> 'd) list \<Rightarrow> (string \<times> 'd) list" where
  "put k v [] = [(k, v)]"
| "put k v ((k', v') # xs) = (if k = k' then (k, v) # xs else (k', v') # put k v xs)"

definition not_found :: fserror where
  "not_found = \<lparr>code = ''not-found'', message = ''No document to update''\<rparr>"

text \<open>\<^verbatim>\<open>getDoc(doc(db, collection, docId))\<close>: the data of the document, if it exists.\<close>

definition getDoc :: "'d store \<Rightarrow> string \<Rightarrow> (fserror + 'd option) \<times> 'd store" where
  "getDoc st docId =
     (case access st of
        (Some e, st') \<Rightarrow> (Inl e, st')
      | (None, st') \<Rightarrow> (Inr (map_of (docs st') docId), st'))"

text \<open>\<^verbatim>\<open>getDocs(query(collection, where ...))\<close>: the documents that pass the filter.\<close>

definition getDocs ::
  "'d store \<Rightarrow> ('d \<Rightarrow> bool) \<Rightarrow> (fserror + (string \<times> 'd) list) \<times> 'd store" where
  "getDocs st matches =
     (case access st of
        (Some e, st') \<Rightarrow> (Inl e, st')
      | (None, st') \<Rightarrow> (Inr (filter (\<lambda>(i, d). matches d) (docs st')), st'))"

text \<open>\<^verbatim>\<open>setDoc(ref, data)\<close> replaces the whole document or creates it.\<close>

definition setDoc :: "'d store \<Rightarrow> string \<Rightarrow> 'd \<Rightarrow> (fserror + unit) \<times> 'd store" where
  "setDoc st docId d =
     (case access st of
        (Some e, st') \<Rightarrow> (Inl e, st')
      | (None, st') \<Rightarrow> (Inr (), st'\<lparr>docs := put docId d (docs st')\<rparr>))"

text \<open>
  \<^verbatim>\<open>updateDoc(ref, fields)\<close> overwrites the given fields of an existing document and is
  rejected when there is none. The fields are given as the function that writes them
  into a document.
\<close>

definition updateDoc :: "'d store \<Rightarrow> string \<Rightarrow> ('d \<Rightarrow> 'd) \<Rightarrow> (fserror + unit) \<times> 'd store" where
  "updateDoc st docId write =
     (case access st of
        (Some e, st') \<Rightarrow> (Inl e, st')
      | (None, st') \<Rightarrow>
          (case map_of (docs st') docId of
             None \<Rightarrow> (Inl not_found, st')
           | Some d \<Rightarrow> (Inr (), st'\<lparr>docs := put docId (write d) (docs st')\<rparr>)))"

text \<open>
  \<^verbatim>\<open>setDoc(ref, fields, {merge: true})\<close> overwrites the given fields of an existing
  document and creates the document from them when there is none.
\<close>

definition setDocMerge ::
  "'d store \<Rightarrow> string \<Rightarrow> 'd \<Rightarrow> ('d \<Rightarrow> 'd) \<Rightarrow> (fserror + unit) \<times> 'd store" where
  "setDocMerge st docId fresh write =
     (case access st of
        (Some e, st') \<Rightarrow> (Inl e, st')
      | (None, st') \<Rightarrow>
          (case map_of (docs st') docId of
             None \<Rightarrow> (Inr (), st'\<lparr>docs := put docId fresh (docs st')\<rparr>)
           | Some d \<Rightarrow> (Inr (), st'\<lparr>docs := put docId (write d) (docs st')\<rparr>)))"

text \<open>
  Strings are compared unit by unit, which is how Firestore orders them and what
  \<^verbatim>\<open>localeCompare\<close> gives on the digits and dashes of accounts and dates. The result
  is negative, zero or positive.
\<close>

fun compareStrings :: "string \<Rightarrow> string \<Rightarrow> int" where
  "compareStrings [] [] = 0"
| "compareStrings [] (y # ys) = - 1"
| "compareStrings (x # xs) [] = 1"
| "compareStrings (x # xs) (y # ys) =
     (if (of_char x :: nat) < of_char y then - 1
      else if (of_char y :: nat) < of_char x then 1
      else compareStrings xs ys)"

text \<open>
  \<^verbatim>\<open>Array.prototype.sort\<close> with a comparator, and \<^verbatim>\<open>orderBy\<close>: a stable sort, here
  by insertion. An element goes in front of the first one that the comparator puts
  strictly after it.
\<close>

fun insertBy :: "('a \<Rightarrow> 'a \<Rightarrow> int) \<Rightarrow> 'a \<Rightarrow> 'a list \<Rightarrow> 'a list" where
  "insertBy cmp x [] = [x]"
| "insertBy cmp x (y # ys) = (if cmp x y < 0 then x # y # ys else y # insertBy cmp x ys)"

definition sortBy :: "('a \<Rightarrow> 'a \<Rightarrow> int) \<Rightarrow> 'a list \<Rightarrow> 'a list" where
  "sortBy cmp xs = foldl (\<lambda>sorted x. insertBy cmp x sorted) [] xs"

section \<open>Errors thrown by the services\<close>

text \<open>
  Each service wraps a failure in an \<^verbatim>\<open>Error\<close> with a fixed message of its own; the
  constructors stand for these messages. \<^verbatim>\<open>signInWithAccount\<close> puts the message of
  the failure into its own.
\<close>

datatype service_error =
  CannotSaveAttendance
  | CannotUpdateParticipation
  | CannotComputeAttendanceStats
  | CannotLoadGrades
  | CannotLoadStudentGrades
  | CannotUpdateGrade
  | CannotBatchUpdateGrades
  | CannotComputeGradeStats
  | LoginFailed string

section \<open>Attendance service\<close>

text \<open>
  \<^verbatim>\<open>format(date, 'yyyy-MM-dd')\<close>: decimal numbers, padded with zeros on the left.
  \<open>digits\<close> gives the decimal digits of a number that is not negative.
\<close>

function digits :: "int \<Rightarrow> string" where
  "digits n =
     (if n < 10 then [''0123456789'' ! nat n]
      else digits (n div 10) @ [''0123456789'' ! nat (n mod 10)])"
  by pat_completeness auto
termination
  by (relation "measure nat") auto

declare digits.simps [simp del]

definition padStart :: "nat \<Rightarrow> string \<Rightarrow> string" where
  "padStart n s = replicate (n - length s) CHR ''0'' @ s"

definition format_ymd :: "Date \<Rightarrow> string" where
  "format_ymd d =
     padStart 4 (digits (year d)) @ ''-'' @ padStart 2 (digits (month d)) @ ''-'' @
     padStart 2 (digits (day d))"

text \<open>
  \<^verbatim>\<open>if (filter.date)\<close>: a filter field restricts the query when it is given and is not
  the empty string.
\<close>

definition restricts :: "string option \<Rightarrow> string \<Rightarrow> bool" where
  "restricts wanted actual = (case wanted of None \<Rightarrow> True | Some w \<Rightarrow> w = [] \<or> actual = w)"

definition compareRecords :: "AttendanceRecord \<Rightarrow> AttendanceRecord \<Rightarrow> int" where
  "compareRecords a b =
     (let dateCompare = compareStrings (AttendanceRecord.date b) (AttendanceRecord.date a)
      in if dateCompare \<noteq> 0 then dateCompare
         else compareStrings (AttendanceRecord.studentAccount a)
                (AttendanceRecord.studentAccount b))"

text \<open>
  \<^verbatim>\<open>getAttendanceRecords\<close>. The query is ordered by date, latest first, documents of
  one date staying in the order of the collection; the result is sorted again in memory.
  A failure of the query is caught and an empty array returned. \<open>now\<close> is the time of
  the call, for a document without \<^verbatim>\<open>createdAt\<close>.
\<close>

definition getAttendanceRecords ::
  "AttendanceRecord store \<Rightarrow> AttendanceFilter \<Rightarrow> nat \<Rightarrow>
     AttendanceRecord list \<times> AttendanceRecord store" where
  "getAttendanceRecords st filter' now =
     (case getDocs st (\<lambda>d. restricts (AttendanceFilter.date filter') (AttendanceRecord.date d) \<and>
                            restricts (AttendanceFilter.studentAccount filter')
                              (AttendanceRecord.studentAccount d)) of
        (Inl e, st') \<Rightarrow> ([], st')
      | (Inr found, st') \<Rightarrow>
          (let ordered = sortBy (\<lambda>(i, a) (j, b). compareStrings (AttendanceRecord.date b)
                                   (AttendanceRecord.date a)) found;
               records = map (\<lambda>(i, d). d\<lparr>AttendanceRecord.id' := Some i,
                                 AttendanceRecord.createdAt :=
                                   Some (case AttendanceRecord.createdAt d of
                                           Some t \<Rightarrow> t | None \<Rightarrow> now)\<rparr>) ordered
           in (sortBy compareRecords records, st')))"

text \<open>
  \<^verbatim>\<open>markAttendance\<close>. The existence check goes through
  \<^const>\<open>getAttendanceRecords\<close>; an existing record is updated, otherwise a record is
  created with \<^verbatim>\<open>createdAt\<close> and \<^verbatim>\<open>participationCount: 0\<close>. A failure of the write is
  rethrown as \<^const>\<open>CannotSaveAttendance\<close>. Where a parameter of the source has
  the name of a field, it has a short name here: \<open>acct\<close> for \<^verbatim>\<open>studentAccount\<close>,
  \<open>when\<close> for \<^verbatim>\<open>date\<close>, \<open>present\<close> for \<^verbatim>\<open>isPresent\<close>, \<open>count\<close> for
  \<^verbatim>\<open>participationCount\<close>, \<open>by\<close> for \<^verbatim>\<open>updatedBy\<close>.
\<close>

definition markAttendance ::
  "AttendanceRecord store \<Rightarrow> string \<Rightarrow> Date \<Rightarrow> bool \<Rightarrow> string \<Rightarrow> nat \<Rightarrow>
     (service_error + unit) \<times> AttendanceRecord store" where
  "markAttendance st acct when present markedBy now =
     (let dateString = format_ymd when;
          docId = acct @ ''_'' @ dateString;
          (existingRecords, st1) =
             getAttendanceRecords st
               \<lparr>AttendanceFilter.date = Some dateString, studentAccount = Some acct,
                group = None\<rparr> now;
          (written, st2) =
             (if length existingRecords > 0 then
                updateDoc st1 docId
                  (\<lambda>d. d\<lparr>AttendanceRecord.studentAccount := acct,
                         AttendanceRecord.date := dateString,
                         AttendanceRecord.isPresent := Some present,
                         AttendanceRecord.updatedAt := now,
                         AttendanceRecord.updatedBy := markedBy\<rparr>)
              else
                setDoc st1 docId
                  \<lparr>AttendanceRecord.id' = None, studentAccount = acct,
                   date = dateString, isPresent = Some present,
                   participationCount = Some 0, createdAt = Some now, updatedAt = now,
                   updatedBy = markedBy\<rparr>)
      in case written of
           Inl e \<Rightarrow> (Inl CannotSaveAttendance, st2)
         | Inr u \<Rightarrow> (Inr (), st2))"

text \<open>\<^verbatim>\<open>updateParticipation\<close>: one \<^verbatim>\<open>setDoc\<close> with \<^verbatim>\<open>merge: true\<close>.\<close>

definition updateParticipation ::
  "AttendanceRecord store \<Rightarrow> string \<Rightarrow> Date \<Rightarrow> int \<Rightarrow> string \<Rightarrow> nat \<Rightarrow>
     (service_error + unit) \<times> AttendanceRecord store" where
  "updateParticipation st acct when count by now =
     (let dateString = format_ymd when;
          docId = acct @ ''_'' @ dateString
      in case setDocMerge st docId
                \<lparr>AttendanceRecord.id' = None, studentAccount = acct,
                 date = dateString, isPresent = None,
                 participationCount = Some count, createdAt = None,
                 updatedAt = now, updatedBy = by\<rparr>
                (\<lambda>d. d\<lparr>AttendanceRecord.studentAccount := acct,
                       AttendanceRecord.date := dateString,
                       AttendanceRecord.participationCount := Some count,
                       AttendanceRecord.updatedAt := now,
                       AttendanceRecord.updatedBy := by\<rparr>) of
           (Inl e, st') \<Rightarrow> (Inl CannotUpdateParticipation, st')
         | (Inr u, st') \<Rightarrow> (Inr (), st'))"

text \<open>
  \<^verbatim>\<open>getAttendanceStats\<close>. The records of the date range are grouped by date, the
  groups in the order in which their dates first occur. Rates are percentages, computed
  in doubles from counts that are far from overflowing. A failure of the query is
  rethrown as \<^const>\<open>CannotComputeAttendanceStats\<close>.
\<close>

record DateStat =
  date :: string
  presentCount :: nat
  totalCount :: nat
  rate :: rat

record AttendanceStats =
  totalClasses :: nat
  totalStudents :: nat
  attendanceRate :: rat
  dateStats :: "DateStat list"

fun groupByDate ::
  "(string \<times> AttendanceRecord list) list \<Rightarrow> AttendanceRecord \<Rightarrow>
     (string \<times> AttendanceRecord list) list" where
  "groupByDate [] r = [(AttendanceRecord.date r, [r])]"
| "groupByDate ((k, rs) # groups) r =
     (if k = AttendanceRecord.date r then (k, rs @ [r]) # groups
      else (k, rs) # groupByDate groups r)"

definition countPresent :: "AttendanceRecord list \<Rightarrow> nat" where
  "countPresent rs = length (filter (\<lambda>r. isPresent r = Some True) rs)"

definition percentage :: "nat \<Rightarrow> nat \<Rightarrow> rat" where
  "percentage part whole =
     (if whole > 0 then dbl (dbl (of_nat part / of_nat whole) * 100) else 0)"

definition getAttendanceStats ::
  "AttendanceRecord store \<Rightarrow> Date \<Rightarrow> Date \<Rightarrow>
     (service_error + AttendanceStats) \<times> AttendanceRecord store" where
  "getAttendanceStats st startDate endDate =
     (let startDateString = format_ymd startDate;
          endDateString = format_ymd endDate
      in case getDocs st (\<lambda>d. compareStrings (AttendanceRecord.date d) startDateString \<ge> 0 \<and>
                               compareStrings (AttendanceRecord.date d) endDateString \<le> 0) of
           (Inl e, st') \<Rightarrow> (Inl CannotComputeAttendanceStats, st')
         | (Inr found, st') \<Rightarrow>
             (let records = map snd (sortBy (\<lambda>(i, a) (j, b). compareStrings
                               (AttendanceRecord.date a) (AttendanceRecord.date b)) found);
                  dateGroups = foldl groupByDate [] records;
                  stats = map (\<lambda>(d, dayRecords).
                            \<lparr>DateStat.date = d, presentCount = countPresent dayRecords,
                             totalCount = length dayRecords,
                             rate = percentage (countPresent dayRecords) (length dayRecords)\<rparr>)
                            dateGroups
              in (Inr \<lparr>totalClasses = length stats,
                       totalStudents =
                         length (remdups (map AttendanceRecord.studentAccount records)),
                       attendanceRate = percentage (countPresent records) (length records),
                       dateStats = stats\<rparr>, st')))"

section \<open>Grade service\<close>

text \<open>\<^verbatim>\<open>[gradeType]: value\<close> as a field of the data written.\<close>

fun set_grade :: "GradeType \<Rightarrow> jsnum option \<Rightarrow> GradeRecord \<Rightarrow> GradeRecord" where
  "set_grade Midterm v r = r\<lparr>midterm := v\<rparr>"
| "set_grade Final v r = r\<lparr>final := v\<rparr>"
| "set_grade Assignment1 v r = r\<lparr>assignment1 := v\<rparr>"
| "set_grade Assignment2 v r = r\<lparr>assignment2 := v\<rparr>"
| "set_grade Assignment3 v r = r\<lparr>assignment3 := v\<rparr>"
| "set_grade Project v r = r\<lparr>project := v\<rparr>"
| "set_grade Participation v r = r\<lparr>participation := v\<rparr>"

text \<open>
  \<^verbatim>\<open>getAllGrades\<close>: all grade records, ordered by account. A failure is rethrown as
  \<^const>\<open>CannotLoadGrades\<close>.
\<close>

definition getAllGrades ::
  "GradeRecord store \<Rightarrow> (service_error + GradeRecord list) \<times> GradeRecord store" where
  "getAllGrades st =
     (case getDocs st (\<lambda>d. True) of
        (Inl e, st') \<Rightarrow> (Inl CannotLoadGrades, st')
      | (Inr found, st') \<Rightarrow>
          (Inr (map (\<lambda>(i, d). d\<lparr>GradeRecord.id' := Some i\<rparr>)
                  (sortBy (\<lambda>(i, a) (j, b). compareStrings (GradeRecord.studentAccount a)
                             (GradeRecord.studentAccount b)) found)), st'))"

text \<open>
  \<^verbatim>\<open>getGradesByStudent\<close>: the first document whose \<^verbatim>\<open>studentAccount\<close> is the given
  account, or \<^verbatim>\<open>null\<close>. A failure is rethrown as \<^const>\<open>CannotLoadStudentGrades\<close>.
\<close>

definition getGradesByStudent ::
  "GradeRecord store \<Rightarrow> string \<Rightarrow> (service_error + GradeRecord option) \<times> GradeRecord store"
  where
  "getGradesByStudent st acct =
     (case getDocs st (\<lambda>d. GradeRecord.studentAccount d = acct) of
        (Inl e, st') \<Rightarrow> (Inl CannotLoadStudentGrades, st')
      | (Inr [], st') \<Rightarrow> (Inr None, st')
      | (Inr ((i, d) # others), st') \<Rightarrow> (Inr (Some (d\<lparr>GradeRecord.id' := Some i\<rparr>)), st'))"

text \<open>
  \<^verbatim>\<open>recalculateTotal\<close> reads the record back and writes the total computed from it.
  Whatever fails in it is caught and logged, so it always returns normally.
\<close>

definition recalculateTotal :: "GradeRecord store \<Rightarrow> string \<Rightarrow> nat \<Rightarrow> GradeRecord store" where
  "recalculateTotal st acct now =
     (case getGradesByStudent st acct of
        (Inl e, st') \<Rightarrow> st'
      | (Inr None, st') \<Rightarrow> st'
      | (Inr (Some gradeRecord), st') \<Rightarrow>
          snd (updateDoc st' acct
                 (\<lambda>d. d\<lparr>total := Some (calculateTotal gradeRecord),
                        GradeRecord.updatedAt := now\<rparr>)))"

text \<open>
  \<^verbatim>\<open>updateGrade\<close>: look the record up, update or create it with the one category, then
  recalculate the total. A failure of the lookup or of the write is rethrown as
  \<^const>\<open>CannotUpdateGrade\<close>. \<open>v\<close> is the source's \<^verbatim>\<open>value\<close>.
\<close>

definition updateGrade ::
  "GradeRecord store \<Rightarrow> string \<Rightarrow> GradeType \<Rightarrow> jsnum \<Rightarrow> string \<Rightarrow> nat \<Rightarrow>
     (service_error + unit) \<times> GradeRecord store" where
  "updateGrade st acct gradeType v by now =
     (let docId = acct
      in case getGradesByStudent st acct of
           (Inl e, st1) \<Rightarrow> (Inl CannotUpdateGrade, st1)
         | (Inr existingGrade, st1) \<Rightarrow>
             (case (case existingGrade of
                      Some g \<Rightarrow>
                        updateDoc st1 docId
                          (\<lambda>d. set_grade gradeType (Some v)
                                 (d\<lparr>GradeRecord.studentAccount := acct,
                                    GradeRecord.updatedAt := now,
                                    GradeRecord.updatedBy := by\<rparr>))
                    | None \<Rightarrow>
                        setDoc st1 docId
                          (set_grade gradeType (Some v)
                             ((blankGrade acct)\<lparr>GradeRecord.updatedAt := now,
                                               GradeRecord.updatedBy := by\<rparr>))) of
                (Inl e, st2) \<Rightarrow> (Inl CannotUpdateGrade, st2)
              | (Inr u, st2) \<Rightarrow> (Inr (), recalculateTotal st2 acct now)))"

text \<open>
  \<^verbatim>\<open>batchUpdateGrades\<close> starts every update and waits for all of them with
  \<^verbatim>\<open>Promise.all\<close>: an update that fails does not stop the others, and the batch is
  rejected with \<^const>\<open>CannotBatchUpdateGrades\<close> when one of them failed. The updates are
  run here in the order of the list.
\<close>

record GradeUpdate =
  studentAccount :: string
  gradeType :: GradeType
  "value" :: jsnum

fun updateEach ::
  "GradeRecord store \<Rightarrow> GradeUpdate list \<Rightarrow> string \<Rightarrow> nat \<Rightarrow> bool \<times> GradeRecord store" where
  "updateEach st [] by now = (True, st)"
| "updateEach st (g # gs) by now =
     (case updateGrade st (GradeUpdate.studentAccount g) (gradeType g) (value g) by now of
        (r, st1) \<Rightarrow>
          (case updateEach st1 gs by now of
             (ok, st2) \<Rightarrow> ((case r of Inl e \<Rightarrow> False | Inr u \<Rightarrow> ok), st2)))"

definition batchUpdateGrades ::
  "GradeRecord store \<Rightarrow> GradeUpdate list \<Rightarrow> string \<Rightarrow> nat \<Rightarrow>
     (service_error + unit) \<times> GradeRecord store" where
  "batchUpdateGrades st grades by now =
     (case updateEach st grades by now of
        (ok, st') \<Rightarrow> (if ok then Inr () else Inl CannotBatchUpdateGrades, st'))"

text \<open>
  \<^verbatim>\<open>getGradeStats\<close>. The values are the numbers other than \<^verbatim>\<open>NaN\<close> that the records
  hold for the grade type. Without values the result is all zeros and the distribution
  is empty. A failure of \<^const>\<open>getAllGrades\<close> is rethrown as
  \<^const>\<open>CannotComputeGradeStats\<close>. \<open>gtype\<close> is the source's \<^verbatim>\<open>gradeType\<close>.
\<close>

record GradeStats =
  average :: jsnum
  highest :: jsnum
  lowest :: jsnum
  count :: nat
  distribution :: "(string \<times> nat) list"

definition jmax :: "jsnum \<Rightarrow> jsnum \<Rightarrow> jsnum" where
  "jmax a b = (if a = NaN \<or> b = NaN then NaN else if jless a b then b else a)"

definition jmin :: "jsnum \<Rightarrow> jsnum \<Rightarrow> jsnum" where
  "jmin a b = (if a = NaN \<or> b = NaN then NaN else if jless b a then b else a)"

definition getGradeStats ::
  "GradeRecord store \<Rightarrow> GradeType \<Rightarrow> (service_error + GradeStats) \<times> GradeRecord store" where
  "getGradeStats st gtype =
     (case getAllGrades st of
        (Inl e, st') \<Rightarrow> (Inl CannotComputeGradeStats, st')
      | (Inr grades, st') \<Rightarrow>
          (let values = concat (map (\<lambda>g. case grade_of gtype g of
                                            None \<Rightarrow> [] | Some v \<Rightarrow> if v \<noteq> NaN then [v] else [])
                                 grades)
           in if length values = 0 then
                (Inr \<lparr>average = Num 0, highest = Num 0, lowest = Num 0, count = 0,
                      distribution = []\<rparr>, st')
              else
                (Inr \<lparr>average =
                        toFixed2 (jdivide (foldl jadd (Num 0) values) (of_nat (length values))),
                      highest = foldl jmax NegInf values,
                      lowest = foldl jmin PosInf values,
                      count = length values,
                      distribution =
                        [(''A (8.5-10)'', length (filter (\<lambda>v. jleq (Num (85 / 10)) v) values)),
                         (''B (7.0-8.4)'',
                            length (filter (\<lambda>v. jleq (Num 7) v \<and> jless v (Num (85 / 10))) values)),
                         (''C (5.5-6.9)'',
                            length (filter (\<lambda>v. jleq (Num (55 / 10)) v \<and> jless v (Num 7)) values)),
                         (''D (4.0-5.4)'',
                            length (filter (\<lambda>v. jleq (Num 4) v \<and> jless v (Num (55 / 10))) values)),
                         (''F (0-3.9)'', length (filter (\<lambda>v. jless v (Num 4)) values))]\<rparr>,
                 st')))"

section \<open>Bulk import of grades\<close>

text \<open>
  A cell of an uploaded sheet is a JavaScript value; a row maps column names to cells, a
  missing column reading as \<^verbatim>\<open>undefined\<close>.
\<close>

datatype jsval = JUndefined | JNull | JBool bool | JNumber jsnum | JString string

type_synonym row = "(string \<times> jsval) list"

definition cell :: "row \<Rightarrow> string \<Rightarrow> jsval" where
  "cell r k = (case map_of r k of None \<Rightarrow> JUndefined | Some v \<Rightarrow> v)"

fun truthy :: "jsval \<Rightarrow> bool" where
  "truthy JUndefined = False"
| "truthy JNull = False"
| "truthy (JBool b) = b"
| "truthy (JNumber n) = (n \<noteq> NaN \<and> n \<noteq> Num 0)"
| "truthy (JString s) = (s \<noteq> [])"

text \<open>\<^verbatim>\<open>a || b\<close>\<close>

definition orElse :: "jsval \<Rightarrow> jsval \<Rightarrow> jsval" where
  "orElse a b = (if truthy a then a else b)"

text \<open>
  \<^verbatim>\<open>value.toString()\<close> on a truthy cell. How a number prints is left open: the
  function that prints numbers is a parameter.
\<close>

fun toString :: "(jsnum \<Rightarrow> string) \<Rightarrow> jsval \<Rightarrow> string" where
  "toString printNumber (JString s) = s"
| "toString printNumber (JNumber n) = printNumber n"
| "toString printNumber (JBool b) = (if b then ''true'' else ''false'')"
| "toString printNumber JNull = ''null''"
| "toString printNumber JUndefined = ''undefined''"

text \<open>
  \<^verbatim>\<open>parseFloat\<close> on a string: white space is skipped, then the longest prefix that is
  a decimal literal is read (a sign, \<^verbatim>\<open>Infinity\<close> or digits with an optional fraction
  and an optional exponent) as the nearest double; without such a prefix the result is
  \<^verbatim>\<open>NaN\<close>. The white space recognised is the ASCII one.
\<close>

definition isSpace :: "char \<Rightarrow> bool" where
  "isSpace c = (c \<in> set [CHR '' '', CHR 0x09, CHR 0x0A, CHR 0x0B, CHR 0x0C, CHR 0x0D])"

definition digitValue :: "char \<Rightarrow> nat option" where
  "digitValue c =
     (if (48::nat) \<le> of_char c \<and> (of_char c :: nat) \<le> 57 then Some (of_char c - 48) else None)"

text \<open>The leading digits of a string, as their values, and the rest of the string.\<close>

fun leadingDigits :: "string \<Rightarrow> nat list \<times> string" where
  "leadingDigits [] = ([], [])"
| "leadingDigits (c # cs) =
     (case digitValue c of
        None \<Rightarrow> ([], c # cs)
      | Some d \<Rightarrow> (case leadingDigits cs of (ds, rest) \<Rightarrow> (d # ds, rest)))"

definition decimalValue :: "nat list \<Rightarrow> nat" where
  "decimalValue ds = foldl (\<lambda>a d. 10 * a + d) 0 ds"

fun startsWith :: "string \<Rightarrow> string \<Rightarrow> bool" where
  "startsWith s [] = True"
| "startsWith [] (p # ps) = False"
| "startsWith (c # cs) (p # ps) = (c = p \<and> startsWith cs ps)"

text \<open>The exponent part at the front of a string, if there is a complete one.\<close>

definition exponentPart :: "string \<Rightarrow> int" where
  "exponentPart s =
     (case s of
        [] \<Rightarrow> 0
      | e # s1 \<Rightarrow>
          if e = CHR ''e'' \<or> e = CHR ''E'' then
            (let (negative, s2) =
                   (case s1 of
                      [] \<Rightarrow> (False, s1)
                    | c # cs \<Rightarrow> if c = CHR ''-'' then (True, cs)
                               else if c = CHR ''+'' then (False, cs) else (False, s1));
                 (ds, rest) = leadingDigits s2
             in if ds = [] then 0
                else if negative then - int (decimalValue ds) else int (decimalValue ds))
          else 0)"

definition parseFloatString :: "string \<Rightarrow> jsnum" where
  "parseFloatString s =
     (let s1 = dropWhile isSpace s;
          (negative, s2) =
             (case s1 of
                [] \<Rightarrow> (False, s1)
              | c # cs \<Rightarrow> if c = CHR ''-'' then (True, cs)
                         else if c = CHR ''+'' then (False, cs) else (False, s1))
      in if startsWith s2 ''Infinity'' then (if negative then NegInf else PosInf)
         else
           (let (ip, s3) = leadingDigits s2;
                (fp, s4) = (case s3 of
                              [] \<Rightarrow> ([], s3)
                            | c # cs \<Rightarrow> if c = CHR ''.'' then leadingDigits cs else ([], s3))
            in if ip = [] \<and> fp = [] then NaN
               else
                 (let mantissa = of_nat (decimalValue ip) +
                                   of_nat (decimalValue fp) / 10 ^ length fp;
                      magnitude = mantissa * 10 powi exponentPart s4
                  in number (if negative then - magnitude else magnitude))))"

text \<open>
  \<^verbatim>\<open>parseFloat\<close> turns its argument into a string first. A number prints so that it
  reads back as itself; the other values print as words that are not numbers.
\<close>

fun parseFloat :: "jsval \<Rightarrow> jsnum" where
  "parseFloat (JString s) = parseFloatString s"
| "parseFloat (JNumber n) = n"
| "parseFloat (JBool b) = NaN"
| "parseFloat JNull = NaN"
| "parseFloat JUndefined = NaN"

text \<open>
  The result of an upload. The texts shown to the user are the constructors of
  \<open>row_problem\<close> (no account, no grade, grade not a number from 0 to 10) and of
  \<open>upload_message\<close> (so many grades updated, so many errors in the file, the file could
  not be processed).
\<close>

datatype row_problem = MissingAccount | MissingGrade | InvalidGrade

record ExcelValidationError =
  row :: nat
  account :: jsval
  field :: string
  error :: row_problem

datatype upload_message = GradesUpdated nat | ErrorsInFile nat | ProcessingFailed

record ExcelUploadResult =
  success :: bool
  message :: upload_message
  errors :: "ExcelValidationError list"
  processedCount :: nat
  totalCount :: nat

definition keyOf :: "GradeType \<Rightarrow> string" where
  "keyOf k =
     (case k of Midterm \<Rightarrow> ''midterm'' | Final \<Rightarrow> ''final'' | Assignment1 \<Rightarrow> ''assignment1''
      | Assignment2 \<Rightarrow> ''assignment2'' | Assignment3 \<Rightarrow> ''assignment3''
      | Project \<Rightarrow> ''project'' | Participation \<Rightarrow> ''participation'')"

text \<open>
  The body of the validation loop for one row: either the error that is pushed before
  \<^verbatim>\<open>continue\<close>, or the grade that is pushed at the end.
\<close>

definition validateRow ::
  "(jsnum \<Rightarrow> string) \<Rightarrow> GradeType \<Rightarrow> nat \<Rightarrow> row \<Rightarrow> ExcelValidationError + GradeUpdate" where
  "validateRow printNumber gtype rowNumber r =
     (if \<not> truthy (cell r ''account'') \<and> \<not> truthy (cell r ''MSSV'') \<and>
         \<not> truthy (cell r ''studentAccount'') then
        Inl \<lparr>row = rowNumber, account = JString ''N/A'', field = ''account'',
             error = MissingAccount\<rparr>
      else
        (let acct = orElse (orElse (cell r ''account'') (cell r ''MSSV''))
                      (cell r ''studentAccount'');
             gradeValue = orElse (orElse (cell r (keyOf gtype)) (cell r ''grade''))
                            (cell r ''score'')
         in if gradeValue = JUndefined \<or> gradeValue = JNull \<or> gradeValue = JString [] then
              Inl \<lparr>row = rowNumber, account = acct, field = keyOf gtype,
                   error = MissingGrade\<rparr>
            else
              (let numericGrade = parseFloat gradeValue
               in if numericGrade = NaN \<or> jless numericGrade (Num 0) \<or>
                     jless (Num 10) numericGrade then
                    Inl \<lparr>row = rowNumber, account = acct, field = keyOf gtype,
                         error = InvalidGrade\<rparr>
                  else
                    Inr \<lparr>GradeUpdate.studentAccount = toString printNumber acct,
                         gradeType = gtype, value = numericGrade\<rparr>)))"

text \<open>
  The loop over the rows from index \<open>i\<close> on, with the two arrays it fills. Row numbers
  start at 2, after the header of the sheet.
\<close>

fun validateRows ::
  "(jsnum \<Rightarrow> string) \<Rightarrow> GradeType \<Rightarrow> nat \<Rightarrow> row list \<Rightarrow>
     ExcelValidationError list \<times> GradeUpdate list \<Rightarrow>
     ExcelValidationError list \<times> GradeUpdate list" where
  "validateRows printNumber gtype i [] (errs, validGrades) = (errs, validGrades)"
| "validateRows printNumber gtype i (r # rs) (errs, validGrades) =
     (case validateRow printNumber gtype (i + 2) r of
        Inl e \<Rightarrow> validateRows printNumber gtype (i + 1) rs (errs @ [e], validGrades)
      | Inr g \<Rightarrow> validateRows printNumber gtype (i + 1) rs (errs, validGrades @ [g]))"

text \<open>
  \<^verbatim>\<open>processExcelUpload\<close>: the batch update runs only when no row was rejected; a
  failure of the batch update is caught and reported in the result.
\<close>

definition processExcelUpload ::
  "(jsnum \<Rightarrow> string) \<Rightarrow> GradeRecord store \<Rightarrow> row list \<Rightarrow> GradeType \<Rightarrow> string \<Rightarrow> nat \<Rightarrow>
     ExcelUploadResult \<times> GradeRecord store" where
  "processExcelUpload printNumber st excelData gtype by now =
     (case validateRows printNumber gtype 0 excelData ([], []) of
        (errs, validGrades) \<Rightarrow>
          (case (if length errs = 0 then batchUpdateGrades st validGrades by now
                 else (Inr (), st)) of
             (Inl e, st') \<Rightarrow>
               (\<lparr>success = False, message = ProcessingFailed, errors = [],
                 processedCount = 0, totalCount = length excelData\<rparr>, st')
           | (Inr u, st') \<Rightarrow>
               (\<lparr>success = (length errs = 0),
                 message = (if length errs = 0 then GradesUpdated (length validGrades)
                            else ErrorsInFile (length errs)),
                 errors = errs,
                 processedCount = length validGrades,
                 totalCount = length excelData\<rparr>, st')))"

text \<open>What the validation makes of each row of a sheet, in the order of the rows.\<close>

definition rowOutcomes ::
  "(jsnum \<Rightarrow> string) \<Rightarrow> GradeType \<Rightarrow> row list \<Rightarrow> (ExcelValidationError + GradeUpdate) list" where
  "rowOutcomes printNumber gtype rows =
     map (\<lambda>(i, r). validateRow printNumber gtype (i + 2) r) (enumerate 0 rows)"

section \<open>Sign-in with an account\<close>

text \<open>\<^verbatim>\<open>s.includes(part)\<close>\<close>

fun includesText :: "string \<Rightarrow> string \<Rightarrow> bool" where
  "includesText [] part = (part = [])"
| "includesText (c # cs) part = (startsWith (c # cs) part \<or> includesText cs part)"

text \<open>
  \<^verbatim>\<open>signInWithAccount\<close> reads the student from the roster, the collection
  \<^verbatim>\<open>students\<close>. It takes the account and nothing else. An account that is not on the
  roster gets a user made up on the spot, and so does any account when the read is
  rejected with an error that mentions \<^verbatim>\<open>permission\<close>; any other failure is rethrown
  with its message. The display name of a made-up user is the Vietnamese for
  \<^verbatim>\<open>student\<close> and the account, written here in UTF-8.
\<close>

definition accountUser :: "string \<Rightarrow> string \<Rightarrow> AuthUser" where
  "accountUser acct shown =
     \<lparr>uid = acct, email = acct @ ''@gm.uit.edu.vn'', displayName = shown,
      role = Role_student, studentAccount = Some acct\<rparr>"

definition signInWithAccount ::
  "Student store \<Rightarrow> string \<Rightarrow> (service_error + AuthUser) \<times> Student store" where
  "signInWithAccount st acct =
     (case getDoc st acct of
        (Inr None, st') \<Rightarrow>
          (Inr (accountUser acct (''Sinh vi'' @ [CHR 0xC3, CHR 0xAA] @ ''n '' @ acct)), st')
      | (Inr (Some studentData), st') \<Rightarrow>
          (Inr (accountUser acct (name studentData @ '' '' @ surname studentData)), st')
      | (Inl err, st') \<Rightarrow>
          (if includesText (code err) ''permission'' \<or>
              includesText (fserror.message err) ''permission''
           then (Inr (accountUser acct (''Demo User '' @ acct)), st')
           else (Inl (LoginFailed (fserror.message err)), st')))"

text \<open>
  What the specification says of an account that is not on the roster, with its mode
  \<^verbatim>\<open>strictRosterLookup\<close>, for comparison with \<^const>\<open>signInWithAccount\<close>: the login
  is refused with an authentication error in strict mode and gives a provisional
  student otherwise. \<open>outcome\<close> reads a result of the code in these terms.
\<close>

datatype resolved = AuthError | Subject AuthUser

definition resolve_unknown_spec :: "bool \<Rightarrow> string \<Rightarrow> resolved" where
  "resolve_unknown_spec strictRosterLookup acct =
     (if strictRosterLookup then AuthError
      else Subject (accountUser acct (''Sinh vi'' @ [CHR 0xC3, CHR 0xAA] @ ''n '' @ acct)))"

definition outcome :: "service_error + AuthUser \<Rightarrow> resolved" where
  "outcome r = (case r of Inl e \<Rightarrow> AuthError | Inr u \<Rightarrow> Subject u)"

section \<open>Attendance page\<close>

text \<open>
  The page holds the signed-in user, the permission loaded for the user's account, and
  the roster \<^verbatim>\<open>students\<close>. \<^verbatim>\<open>canInteractWithStudent\<close> decides whether the controls of
  a row are enabled. \<open>target\<close> is the source's \<^verbatim>\<open>targetStudentAccount\<close>.
\<close>

definition canInteractWithStudent ::
  "AuthUser option \<Rightarrow> StudentPermission option \<Rightarrow> Student list \<Rightarrow> string \<Rightarrow> bool" where
  "canInteractWithStudent user userPermission students target =
     (case user of
        None \<Rightarrow> False
      | Some u \<Rightarrow>
          (case userPermission of
             None \<Rightarrow> False
           | Some p \<Rightarrow>
               if \<not> canMarkAttendance p then False
               else if StudentPermission.role p = Role_teacher then True
               else if StudentPermission.role p = Role_group_leader \<and>
                       AuthUser.studentAccount u \<noteq> None \<and> AuthUser.studentAccount u \<noteq> Some []
               then
                 (case (find (\<lambda>s. Some (Student.account s) = AuthUser.studentAccount u) students,
                        find (\<lambda>s. Student.account s = target) students) of
                    (Some currentUserStudent, Some targetStudent) \<Rightarrow>
                      Student.group currentUserStudent = Student.group targetStudent
                  | _ \<Rightarrow> False)
               else False))"

text \<open>
  What a handler tells the user: the three refusals, each followed by \<^verbatim>\<open>return\<close>, or
  the outcome of the call of the attendance service. The optimistic update of the local
  copy of the attendance is not part of the model.
\<close>

datatype notice = PleaseLogIn | NoPermission | OnlyOwnGroup string | Saved | NotSaved

text \<open>\<^verbatim>\<open>user?.uid || 'anonymous'\<close>\<close>

definition actorOf :: "AuthUser \<Rightarrow> string" where
  "actorOf u = (if uid u \<noteq> [] then uid u else ''anonymous'')"

definition handleAttendanceChange ::
  "AuthUser option \<Rightarrow> StudentPermission option \<Rightarrow> Student list \<Rightarrow> AttendanceRecord store \<Rightarrow>
     Date \<Rightarrow> nat \<Rightarrow> string \<Rightarrow> bool \<Rightarrow> notice \<times> AttendanceRecord store" where
  "handleAttendanceChange user userPermission students st today now acct present =
     (case user of
        None \<Rightarrow> (PleaseLogIn, st)
      | Some u \<Rightarrow>
          if \<not> (case userPermission of None \<Rightarrow> False | Some p \<Rightarrow> canMarkAttendance p)
          then (NoPermission, st)
          else
            (case (if map_option StudentPermission.role userPermission = Some Role_group_leader \<and>
                      AuthUser.studentAccount u \<noteq> None \<and> AuthUser.studentAccount u \<noteq> Some []
                   then
                     (case (find (\<lambda>s. Some (Student.account s) = AuthUser.studentAccount u) students,
                            find (\<lambda>s. Student.account s = acct) students) of
                        (Some currentUserStudent, Some targetStudent) \<Rightarrow>
                          if Student.group currentUserStudent \<noteq> Student.group targetStudent
                          then Some (OnlyOwnGroup (Student.group currentUserStudent)) else None
                      | _ \<Rightarrow> None)
                   else None) of
               Some refusal \<Rightarrow> (refusal, st)
             | None \<Rightarrow>
                 (case markAttendance st acct today present (actorOf u) now of
                    (Inl e, st') \<Rightarrow> (NotSaved, st')
                  | (Inr ok, st') \<Rightarrow> (Saved, st'))))"

definition handleParticipationChange ::
  "AuthUser option \<Rightarrow> StudentPermission option \<Rightarrow> Student list \<Rightarrow> AttendanceRecord store \<Rightarrow>
     Date \<Rightarrow> nat \<Rightarrow> string \<Rightarrow> int \<Rightarrow> notice \<times> AttendanceRecord store" where
  "handleParticipationChange user userPermission students st today now acct n =
     (case user of
        None \<Rightarrow> (PleaseLogIn, st)
      | Some u \<Rightarrow>
          if \<not> (case userPermission of None \<Rightarrow> False | Some p \<Rightarrow> canMarkAttendance p)
          then (NoPermission, st)
          else
            (case (if map_option StudentPermission.role userPermission = Some Role_group_leader \<and>
                      AuthUser.studentAccount u \<noteq> None \<and> AuthUser.studentAccount u \<noteq> Some []
                   then
                     (case (find (\<lambda>s. Some (Student.account s) = AuthUser.studentAccount u) students,
                            find (\<lambda>s. Student.account s = acct) students) of
                        (Some currentUserStudent, Some targetStudent) \<Rightarrow>
                          if Student.group currentUserStudent \<noteq> Student.group targetStudent
                          then Some (OnlyOwnGroup (Student.group currentUserStudent)) else None
                      | _ \<Rightarrow> None)
                   else None) of
               Some refusal \<Rightarrow> (refusal, st)
             | None \<Rightarrow>
                 (case updateParticipation st acct today n (actorOf u) now of
                    (Inl e, st') \<Rightarrow> (NotSaved, st')
                  | (Inr ok, st') \<Rightarrow> (Saved, st'))))"

text \<open>A request is allowed when the handler gets as far as calling the service.\<close>

definition allowed :: "notice \<Rightarrow> bool" where
  "allowed n = (n = Saved \<or> n = NotSaved)"

section \<open>Invariants of the collections\<close>

text \<open>
  The attendance service writes every record under the id made of its account and its
  date, and the grade service writes every record under its account. A collection that
  only these services have written has one document for each id and each document
  under the id that its fields give.
\<close>

definition wf_attendance :: "(string \<times> AttendanceRecord) list \<Rightarrow> bool" where
  "wf_attendance ds =
     (distinct (map fst ds) \<and>
      (\<forall>(i, d) \<in> set ds. i = AttendanceRecord.studentAccount d @ ''_'' @ AttendanceRecord.date d))"

definition wf_grades :: "(string \<times> GradeRecord) list \<Rightarrow> bool" where
  "wf_grades ds =
     (distinct (map fst ds) \<and> (\<forall>(i, d) \<in> set ds. i = GradeRecord.studentAccount d))"

text \<open>The attendance records of an account for a session.\<close>

definition recordsFor ::
  "string \<Rightarrow> string \<Rightarrow> (string \<times> AttendanceRecord) list \<Rightarrow> (string \<times> AttendanceRecord) list"
  where
  "recordsFor acct dateString ds =
     filter (\<lambda>(i, d). AttendanceRecord.studentAccount d = acct \<and>
                       AttendanceRecord.date d = dateString) ds"

section \<open>Sample data\<close>

text \<open>Small stores, a day and a roster on which the properties below are tried out.\<close>

definition emptyAttendance :: "AttendanceRecord store" where
  "emptyAttendance = \<lparr>docs = [], faults = []\<rparr>"

definition emptyGrades :: "GradeRecord store" where
  "emptyGrades = \<lparr>docs = [], faults = []\<rparr>"

definition march7 :: Date where
  "march7 = \<lparr>year = 2024, month = 3, day = 7\<rparr>"

definition unavailable :: fserror where
  "unavailable = \<lparr>code = ''unavailable'', message = ''The service is currently unavailable''\<rparr>"

text \<open>
  An attendance collection with one record, of three contributions, whose next access
  is rejected.
\<close>

definition attendedStore :: "AttendanceRecord store" where
  "attendedStore =
     \<lparr>docs = [(''23520001_2024-03-07'',
                \<lparr>AttendanceRecord.id' = None, studentAccount = ''23520001'',
                 date = ''2024-03-07'', isPresent = Some True, participationCount = Some 3,
                 createdAt = Some 1, updatedAt = 2, updatedBy = ''gv''\<rparr>)],
      faults = [Some unavailable]\<rparr>"

text \<open>
  Two grade records: midterm 8 and final 7; midterm 6 and first assignment 7.5.
\<close>

definition midtermFinal :: GradeRecord where
  "midtermFinal = (blankGrade ''23520001'')\<lparr>midterm := Some (Num 8), final := Some (Num 7)\<rparr>"

definition halfPoint :: GradeRecord where
  "halfPoint =
     (blankGrade ''23520002'')\<lparr>midterm := Some (Num 6), assignment1 := Some (Num (15 / 2))\<rparr>"

text \<open>
  A grade collection with one record, midterm 8 and total 8, on which the first two
  accesses go through and the third is rejected.
\<close>

definition gradedStore :: "GradeRecord store" where
  "gradedStore =
     \<lparr>docs = [(''23520001'',
                (blankGrade ''23520001'')\<lparr>midterm := Some (Num 8), total := Some (Num 8),
                                          GradeRecord.updatedAt := 1,
                                          GradeRecord.updatedBy := ''gv''\<rparr>)],
      faults = [None, None, Some unavailable]\<rparr>"

text \<open>
  How JavaScript prints a whole number below \<open>10\<^sup>2\<^sup>1\<close>: its decimal digits, after a minus
  sign when it is negative; the special values print as their names. The samples print
  with it; their numbers are whole.
\<close>

definition printWholeNumber :: "jsnum \<Rightarrow> string" where
  "printWholeNumber n =
     (case n of
        NaN \<Rightarrow> ''NaN''
      | PosInf \<Rightarrow> ''Infinity''
      | NegInf \<Rightarrow> ''-Infinity''
      | Num q \<Rightarrow> (if q < 0 then ''-'' else []) @ digits \<lfloor>\<bar>q\<bar>\<rfloor>)"

text \<open>
  Three rows that pass validation, with the account and the grade under different
  column names and as text or as numbers, and a row without an account.
\<close>

definition threeRows :: "row list" where
  "threeRows =
     [[(''account'', JString ''23520001''), (''midterm'', JNumber (Num 8))],
      [(''MSSV'', JNumber (Num 23520002)), (''grade'', JString ''7.5'')],
      [(''studentAccount'', JString ''23520003''), (''score'', JNumber (Num 9))]]"

definition rowWithoutAccount :: row where
  "rowWithoutAccount = [(''midterm'', JNumber (Num 6))]"

text \<open>
  A group leader of group A with the permission to mark attendance, on a roster with a
  second student of group A and a student of group B.
\<close>

definition groupLeader :: AuthUser where
  "groupLeader = accountUser ''23520001'' ''An Nguyen''"

definition leaderPermission :: StudentPermission where
  "leaderPermission =
     \<lparr>StudentPermission.id' = Some ''23520001'', studentAccount = ''23520001'',
      canMarkAttendance = True, canEditGrades = False, isGroupLeader = True,
      role = Role_group_leader, createdAt = 1, updatedAt = 1, createdBy = Some ''admin''\<rparr>"

definition sampleRoster :: "Student list" where
  "sampleRoster =
     [\<lparr>Student.account = ''23520001'', name = ''An'', surname = ''Nguyen'', group = ''A''\<rparr>,
      \<lparr>Student.account = ''23520002'', name = ''Binh'', surname = ''Tran'', group = ''A''\<rparr>,
      \<lparr>Student.account = ''23520003'', name = ''Chi'', surname = ''Le'', group = ''B''\<rparr>]"

text \<open>An empty roster collection.\<close>

definition emptyRoster :: "Student store" where
  "emptyRoster = \<lparr>docs = [], faults = []\<rparr>"

section \<open>Properties\<close>

subsection \<open>Participation score\<close>

text \<open>
  C6. The participation score maps 0 to 0, 1 to 3, 2 to 6, 3 to 9 and every count of at
  least 4 to 10; every negative count scores 0; and the score never decreases when the
  count grows.
\<close>

theorem participation_score_table:
  "getParticipationScore 0 = 0 \<and> getParticipationScore 1 = 3 \<and>
   getParticipationScore 2 = 6 \<and> getParticipationScore 3 = 9 \<and>
   (\<forall>c \<ge> 4. getParticipationScore c = 10) \<and>
   (\<forall>c < 0. getParticipationScore c = 0) \<and>
   (\<forall>a b. a \<le> b \<longrightarrow> getParticipationScore a \<le> getParticipationScore b)"
  by (auto simp: getParticipationScore_def)

theorem participation_score_table_witness:
  "getParticipationScore 5 = 10 \<and> getParticipationScore (- 2) = 0 \<and>
   getParticipationScore 2 \<le> getParticipationScore 3"
proof -
  have "(5::int) \<ge> 4" and "(- 2::int) < 0" and "(2::int) \<le> 3"
    by simp_all
  with participation_score_table show ?thesis
    by blast
qed

subsection \<open>Weighted total\<close>

lemma log2floor_bounds:
  "1 \<le> n \<Longrightarrow> 0 \<le> log2floor n \<and> 2 ^ nat (log2floor n) \<le> n \<and> n < 2 ^ nat (log2floor n + 1)"
proof (induction n rule: log2floor.induct)
  case (1 n)
  show ?case
  proof (cases "n < 2")
    case True
    with "1.prems" have "n = 1" by simp
    then show ?thesis by (simp add: log2floor.simps)
  next
    case False
    then have "1 \<le> n div 2" by simp
    from "1.IH"[OF False this] have k: "0 \<le> log2floor (n div 2)"
      "2 ^ nat (log2floor (n div 2)) \<le> n div 2" "n div 2 < 2 ^ nat (log2floor (n div 2) + 1)"
      by simp_all
    have l: "log2floor n = 1 + log2floor (n div 2)"
      using False by (subst log2floor.simps) simp
    have s: "nat (1 + log2floor (n div 2)) = Suc (nat (log2floor (n div 2)))"
      "nat (1 + log2floor (n div 2) + 1) = Suc (nat (log2floor (n div 2) + 1))"
      using k(1) by simp_all
    have "2 * 2 ^ nat (log2floor (n div 2)) \<le> n" using k(2) by linarith
    moreover have "n < 2 * 2 ^ nat (log2floor (n div 2) + 1)" using k(3) by linarith
    ultimately show ?thesis using k(1) unfolding l s by simp
  qed
qed

lemma exponentOf_bounds:
  assumes "q \<noteq> 0"
  shows "2 powi exponentOf q \<le> \<bar>q\<bar> \<and> \<bar>q\<bar> < 2 powi (exponentOf q + 1)"
proof (cases "1 \<le> \<bar>q\<bar>")
  case True
  then have one: "1 \<le> \<lfloor>\<bar>q\<bar>\<rfloor>" by simp
  define k where "k = log2floor \<lfloor>\<bar>q\<bar>\<rfloor>"
  from log2floor_bounds[OF one] have k: "0 \<le> k" "2 ^ nat k \<le> \<lfloor>\<bar>q\<bar>\<rfloor>" "\<lfloor>\<bar>q\<bar>\<rfloor> < 2 ^ nat (k + 1)"
    by (simp_all add: k_def)
  have e: "exponentOf q = k" using True by (simp add: exponentOf_def k_def)
  have "(of_int (2 ^ nat k) :: rat) \<le> of_int \<lfloor>\<bar>q\<bar>\<rfloor>" using k(2) by (simp only: of_int_le_iff)
  then have lo: "(2::rat) ^ nat k \<le> \<bar>q\<bar>" by (simp add: le_floor_iff)
  have "\<lfloor>\<bar>q\<bar>\<rfloor> + 1 \<le> 2 ^ nat (k + 1)" using k(3) by simp
  then have "(of_int (\<lfloor>\<bar>q\<bar>\<rfloor> + 1) :: rat) \<le> of_int (2 ^ nat (k + 1))" by (simp only: of_int_le_iff)
  moreover have "\<bar>q\<bar> < of_int (\<lfloor>\<bar>q\<bar>\<rfloor> + 1)" by linarith
  ultimately have hi: "\<bar>q\<bar> < (2::rat) ^ nat (k + 1)" by simp
  show ?thesis unfolding e using lo hi k(1) by (simp add: power_int_def)
next
  case False
  define a where "a = \<bar>q\<bar>"
  have a: "0 < a" "a < 1" using assms False by (simp_all add: a_def)
  then have one: "1 \<le> \<lfloor>1 / a\<rfloor>" by (simp add: le_floor_iff)
  define k where "k = log2floor \<lfloor>1 / a\<rfloor>"
  from log2floor_bounds[OF one] have k: "0 \<le> k" "2 ^ nat k \<le> \<lfloor>1 / a\<rfloor>" "\<lfloor>1 / a\<rfloor> < 2 ^ nat (k + 1)"
    by (simp_all add: k_def)
  have "(of_int (2 ^ nat k) :: rat) \<le> of_int \<lfloor>1 / a\<rfloor>" using k(2) by (simp only: of_int_le_iff)
  then have "(2::rat) ^ nat k \<le> 1 / a" by (simp add: le_floor_iff)
  then have lo: "a * 2 ^ nat k \<le> 1" using a(1) by (simp add: field_simps)
  have "\<lfloor>1 / a\<rfloor> + 1 \<le> 2 ^ nat (k + 1)" using k(3) by simp
  then have "(of_int (\<lfloor>1 / a\<rfloor> + 1) :: rat) \<le> of_int (2 ^ nat (k + 1))" by (simp only: of_int_le_iff)
  moreover have "1 / a < of_int (\<lfloor>1 / a\<rfloor> + 1)" by linarith
  ultimately have "1 / a < (2::rat) ^ nat (k + 1)" by simp
  then have hi: "1 < a * 2 ^ nat (k + 1)" using a(1) by (simp add: field_simps)
  have suc: "nat (k + 1) = Suc (nat k)" using k(1) by simp
  have p1: "(2::rat) powi (- k) = 1 / 2 ^ nat k" using k(1) by (simp add: power_int_def field_simps)
  have p2: "(2::rat) powi (- (k + 1)) = 1 / 2 ^ nat (k + 1)"
    using k(1) by (simp add: power_int_def field_simps)
  have p3: "(2::rat) powi (- k + 1) = 2 / 2 ^ nat k"
  proof -
    have "(2::rat) powi (- k + 1) = 2 powi (- k) * 2 powi 1"
      by (rule power_int_add) simp
    then show ?thesis by (simp only: p1) simp
  qed
  show ?thesis
  proof (cases "a * 2 ^ nat k = 1")
    case True
    then have e: "exponentOf q = - k" using False by (simp add: exponentOf_def a_def k_def Let_def)
    have "a = 1 / 2 ^ nat k" using True by (simp add: field_simps)
    then show ?thesis unfolding e p1 p3 a_def[symmetric] by (simp add: divide_strict_right_mono)
  next
    case ne: False
    then have e: "exponentOf q = - (k + 1)" using False by (simp add: exponentOf_def a_def k_def Let_def)
    have "a * 2 ^ nat k < 1" using lo ne by simp
    then have "a < 1 / 2 ^ nat k" by (simp add: field_simps)
    moreover have "1 / 2 ^ nat (k + 1) < a" using hi by (simp add: field_simps)
    ultimately show ?thesis unfolding e a_def[symmetric] using p1 p2 by simp
  qed
qed

lemma roundHalfEven_floor: "\<lfloor>y\<rfloor> \<le> roundHalfEven y"
  by (simp add: roundHalfEven_def Let_def)

lemma dbl_lower:
  assumes "2 powi k \<le> q" and "- 1022 \<le> k"
  shows "2 powi k \<le> dbl q"
proof -
  have pos: "0 < q" using assms(1) by (rule less_le_trans[rotated]) simp
  then have abs: "\<bar>q\<bar> = q" and nz: "q \<noteq> 0" by simp_all
  define e where "e = exponentOf q"
  from exponentOf_bounds[OF nz] have b: "2 powi e \<le> q" "q < 2 powi (e + 1)"
    by (simp_all add: e_def abs)
  have "(2::rat) powi k < 2 powi (e + 1)" using assms(1) b(2) by simp
  have ke: "k \<le> e"
  proof (rule ccontr)
    assume "\<not> k \<le> e"
    then have "e + 1 \<le> k" by simp
    then have "(2::rat) powi (e + 1) \<le> 2 powi k" by (rule power_int_increasing) simp
    with \<open>(2::rat) powi k < 2 powi (e + 1)\<close> show False by simp
  qed
  then have m: "max e (- 1022) = e" using assms(2) by simp
  define ulp :: rat where "ulp = 2 powi (e - 52)"
  have ulp: "0 < ulp" by (simp add: ulp_def)
  have split: "(2::rat) powi e = 2 ^ 52 * ulp"
  proof -
    have "(2::rat) powi (52 + (e - 52)) = 2 powi 52 * 2 powi (e - 52)"
      by (rule power_int_add) simp
    then show ?thesis by (simp add: ulp_def)
  qed
  have "2 ^ 52 * ulp \<le> q" using b(1) by (simp only: split)
  then have "(2::rat) ^ 52 \<le> q / ulp" using ulp by (simp add: field_simps)
  then have "(2::int) ^ 52 \<le> \<lfloor>q / ulp\<rfloor>" by (simp add: le_floor_iff)
  then have "(2::int) ^ 52 \<le> roundHalfEven (q / ulp)"
    using roundHalfEven_floor[of "q / ulp"] by (rule order_trans)
  then have "(of_int (2 ^ 52) :: rat) \<le> of_int (roundHalfEven (q / ulp))"
    by (simp only: of_int_le_iff)
  then have "2 ^ 52 * ulp \<le> of_int (roundHalfEven (q / ulp)) * ulp"
    using ulp by simp
  moreover have "dbl q = of_int (roundHalfEven (q / ulp)) * ulp"
    using nz by (simp add: dbl_def Let_def e_def[symmetric] m ulp_def)
  moreover have "(2::rat) powi k \<le> 2 powi e" using ke by (simp add: power_int_increasing)
  ultimately show ?thesis by (simp only: split[symmetric])
qed

lemma dbl_weight_lower: "2 powi (- 5) \<le> dbl (spec_weight k)"
  by (rule dbl_lower) (simp_all add: spec_weight_def power_int_minus split: GradeType.splits)

lemma weight_fold_lower:
  "(0 \<le> a \<and> ks \<noteq> []) \<or> 2 powi (- 5) \<le> a \<Longrightarrow>
     2 powi (- 5) \<le> foldl (\<lambda>a w. dbl (a + w)) a (map (\<lambda>k. dbl (spec_weight k)) ks)"
proof (induction ks arbitrary: a)
  case Nil
  then show ?case by simp
next
  case (Cons k ks)
  have "0 \<le> a" using Cons.prems by (auto simp: power_int_minus)
  then have "2 powi (- 5) \<le> a + dbl (spec_weight k)"
    using dbl_weight_lower[of k] by simp
  then have "2 powi (- 5) \<le> dbl (a + dbl (spec_weight k))"
    by (rule dbl_lower) simp
  then show ?case using Cons.IH[of "dbl (a + dbl (spec_weight k))"] by simp
qed

lemma double_weight_pos:
  "filter (category_present r) categories \<noteq> [] \<Longrightarrow> 0 < double_weight r"
proof -
  assume "filter (category_present r) categories \<noteq> []"
  then have "2 powi (- 5) \<le> double_weight r"
    unfolding double_weight_def by (intro weight_fold_lower) simp
  then show ?thesis by (rule less_le_trans[rotated]) simp
qed

lemma weights_categories: "weights = map (\<lambda>k. (k, dbl (spec_weight k))) categories"
  by (simp add: weights_def categories_def spec_weight_def)

lemma total_step_present:
  "total_step r (t, tw) (k, w) =
     (if category_present r k then (jadd t (jtimes (category_score r k) w), dbl (tw + w))
      else (t, tw))"
  by (simp add: category_present_def category_score_def split: option.splits jsnum.splits)

lemma total_step_fold:
  "foldl (total_step r) (t, tw) (map (\<lambda>k. (k, W k)) ks) =
     (foldl jadd t (map (\<lambda>k. jtimes (category_score r k) (W k)) (filter (category_present r) ks)),
      foldl (\<lambda>a w. dbl (a + w)) tw (map W (filter (category_present r) ks)))"
proof (induction ks arbitrary: t tw)
  case Nil
  then show ?case by simp
next
  case (Cons k ks)
  then show ?case by (simp add: total_step_present del: total_step.simps)
qed

lemma calculateTotal_fold:
  "calculateTotal r =
     (if filter (category_present r) categories = [] then Num 0
      else toFixed2 (double_quotient r))"
proof -
  have fold: "foldl (total_step r) (Num 0, 0) weights = (double_sum r, double_weight r)"
    unfolding weights_categories total_step_fold double_sum_def double_weight_def by simp
  show ?thesis
  proof (cases "filter (category_present r) categories = []")
    case True
    then have "double_weight r = 0" by (simp add: double_weight_def)
    with True show ?thesis by (simp add: calculateTotal_def fold)
  next
    case False
    from double_weight_pos[OF False] False show ?thesis
      by (simp add: calculateTotal_def fold double_quotient_def)
  qed
qed

lemma round2_close: "\<bar>round2 q - q\<bar> \<le> 1 / 200"
proof (cases "q < 0")
  case True
  define n where "n = \<lfloor>- q * 100 + 1 / 2\<rfloor>"
  have "of_int n \<le> - q * 100 + 1 / 2" "- q * 100 + 1 / 2 < of_int n + 1"
    unfolding n_def by linarith+
  moreover have "round2 q = - (of_int n / 100)"
    using True by (simp add: round2_def n_def)
  ultimately show ?thesis by (simp add: abs_if field_simps)
next
  case False
  define n where "n = \<lfloor>q * 100 + 1 / 2\<rfloor>"
  have "of_int n \<le> q * 100 + 1 / 2" "q * 100 + 1 / 2 < of_int n + 1"
    unfolding n_def by linarith+
  moreover have "round2 q = of_int n / 100"
    using False by (simp add: round2_def n_def)
  ultimately show ?thesis by (simp add: abs_if field_simps)
qed

lemma round2_hundredths: "\<exists>n::int. round2 q = of_int n / 100"
  unfolding round2_def by (metis (no_types) minus_divide_left of_int_minus)

lemma toFixed2_hundredths:
  assumes "\<bar>q\<bar> < 10 ^ 21"
  shows "\<exists>n::int. toFixed2 (Num q) = Num (dbl (of_int n / 100)) \<and> \<bar>of_int n / 100 - q\<bar> \<le> 1 / 200"
proof -
  from round2_hundredths obtain n :: int where n: "round2 q = of_int n / 100" ..
  have "toFixed2 (Num q) = Num (dbl (of_int n / 100))" using assms by (simp add: n)
  moreover have "\<bar>of_int n / 100 - q\<bar> \<le> 1 / 200" using round2_close[of q] by (simp only: n)
  ultimately show ?thesis by blast
qed

text \<open>
  C5 (amended). The weighted total is computed in double arithmetic. With the weights
  midterm .30, final .40, assignment1 .10, assignment2 .10, assignment3 .05, project .15
  and participation .05 taken as doubles, the products of score and weight of the
  categories present are added from the left in the order of the table, each product and
  each sum rounded to the nearest double, and the sum is divided by the sum of the
  weights present, added in the same way. The total is \<^verbatim>\<open>Number(x.toFixed(2))\<close> of that
  quotient \<open>x\<close>: when \<open>x\<close> is finite and below \<open>10\<^sup>2\<^sup>1\<close> in magnitude, the double nearest to
  a multiple of 1/100 that is within 1/200 of \<open>x\<close>. It is 0 when no category is present.
  Midterm 8 and final 7 give 7.43; midterm 6 and first assignment 7.5 give 6.37. A
  category is present when it holds a number other than \<^verbatim>\<open>NaN\<close>.
\<close>

theorem weighted_total_in_doubles:
  "(filter (category_present r) categories = [] \<longrightarrow> calculateTotal r = Num 0) \<and>
   (filter (category_present r) categories \<noteq> [] \<longrightarrow>
      calculateTotal r = toFixed2 (double_quotient r)) \<and>
   (\<forall>q. filter (category_present r) categories \<noteq> [] \<and> double_quotient r = Num q \<and>
        \<bar>q\<bar> < 10 ^ 21 \<longrightarrow>
        (\<exists>n::int. calculateTotal r = Num (dbl (of_int n / 100)) \<and>
                  \<bar>of_int n / 100 - q\<bar> \<le> 1 / 200)) \<and>
   calculateTotal midtermFinal = Num (dbl (743 / 100)) \<and>
   calculateTotal halfPoint = Num (dbl (637 / 100))"
proof -
  have a: "calculateTotal midtermFinal = Num (dbl (743 / 100))" by code_simp
  have b: "calculateTotal halfPoint = Num (dbl (637 / 100))" by code_simp
  have c: "\<forall>q. filter (category_present r) categories \<noteq> [] \<and> double_quotient r = Num q \<and>
        \<bar>q\<bar> < 10 ^ 21 \<longrightarrow>
        (\<exists>n::int. calculateTotal r = Num (dbl (of_int n / 100)) \<and>
                  \<bar>of_int n / 100 - q\<bar> \<le> 1 / 200)"
  proof (intro allI impI)
    fix q
    assume h: "filter (category_present r) categories \<noteq> [] \<and> double_quotient r = Num q \<and>
        \<bar>q\<bar> < 10 ^ 21"
    then have "calculateTotal r = toFixed2 (Num q)" by (simp add: calculateTotal_fold)
    with toFixed2_hundredths[of q] h
    show "\<exists>n::int. calculateTotal r = Num (dbl (of_int n / 100)) \<and>
                  \<bar>of_int n / 100 - q\<bar> \<le> 1 / 200"
      by simp
  qed
  show ?thesis using a b c by (simp add: calculateTotal_fold)
qed

theorem weighted_total_in_doubles_witness:
  "filter (category_present midtermFinal) categories = [Midterm, Final] \<and>
   double_quotient midtermFinal = Num (8363827879402351 / 1125899906842624) \<and>
   calculateTotal midtermFinal = toFixed2 (Num (8363827879402351 / 1125899906842624)) \<and>
   (\<exists>n::int. calculateTotal midtermFinal = Num (dbl (of_int n / 100)) \<and>
      \<bar>of_int n / 100 - 8363827879402351 / 1125899906842624 :: rat\<bar> \<le> 1 / 200) \<and>
   filter (category_present (blankGrade ''23520001'')) categories = [] \<and>
   calculateTotal (blankGrade ''23520001'') = Num 0"
proof -
  have present: "filter (category_present midtermFinal) categories = [Midterm, Final]"
    by code_simp
  have quotient: "double_quotient midtermFinal = Num (8363827879402351 / 1125899906842624)"
    by code_simp
  have absent: "filter (category_present (blankGrade ''23520001'')) categories = []"
    by code_simp
  have hyp: "filter (category_present midtermFinal) categories \<noteq> [] \<and>
      double_quotient midtermFinal = Num (8363827879402351 / 1125899906842624) \<and>
      \<bar>8363827879402351 / 1125899906842624 :: rat\<bar> < 10 ^ 21"
    using present quotient by simp
  note t = weighted_total_in_doubles[of midtermFinal]
  have "calculateTotal midtermFinal = toFixed2 (double_quotient midtermFinal)"
    using conjunct1[OF conjunct2[OF t]] hyp by simp
  then have fixed: "calculateTotal midtermFinal =
      toFixed2 (Num (8363827879402351 / 1125899906842624))"
    by (simp only: quotient)
  have near: "\<exists>n::int. calculateTotal midtermFinal = Num (dbl (of_int n / 100)) \<and>
      \<bar>of_int n / 100 - 8363827879402351 / 1125899906842624 :: rat\<bar> \<le> 1 / 200"
    by (rule mp[OF spec[OF conjunct1[OF conjunct2[OF conjunct2[OF t]]]] hyp])
  have zero: "calculateTotal (blankGrade ''23520001'') = Num 0"
    by (rule mp[OF conjunct1[OF weighted_total_in_doubles[of "blankGrade ''23520001''"]] absent])
  show ?thesis
    by (intro conjI present quotient fixed near absent zero)
qed

text \<open>
  C5 as stated fails on the record with midterm 6 and first assignment 7.5: the exact
  quotient is 6.375, which rounds to 6.38, while the quotient in doubles is just below
  6.375 and the code stores 6.37.
\<close>

theorem weighted_total_not_exact:
  "category_present halfPoint Midterm \<and> category_present halfPoint Assignment1 \<and>
   filter (category_present halfPoint) categories = [Midterm, Assignment1] \<and>
   weighted_quotient halfPoint = 51 / 8 \<and>
   round2 (weighted_quotient halfPoint) = 638 / 100 \<and>
   double_quotient halfPoint = Num (7177611906121727 / 1125899906842624) \<and>
   7177611906121727 / 1125899906842624 < (51 / 8 :: rat) \<and>
   calculateTotal halfPoint = Num (dbl (637 / 100)) \<and>
   dbl (637 / 100) \<noteq> dbl (638 / 100) \<and>
   calculateTotal halfPoint \<noteq> number (round2 (weighted_quotient halfPoint))"
  by code_simp

subsection \<open>The store and the attendance upsert\<close>

lemma map_of_put: "map_of (put k v xs) = (map_of xs)(k \<mapsto> v)"
  by (induction xs) auto

lemma keys_put: "set (map fst (put k v xs)) = insert k (set (map fst xs))"
  by (simp add: dom_map_of_conv_image_fst[symmetric] map_of_put)

lemma distinct_put: "distinct (map fst xs) \<Longrightarrow> distinct (map fst (put k v xs))"
proof (induction xs)
  case Nil
  then show ?case by simp
next
  case (Cons a xs)
  obtain k' v' where a: "a = (k', v')" by (cases a)
  show ?case
  proof (cases "k = k'")
    case True
    then show ?thesis using Cons.prems a by simp
  next
    case False
    have "k' \<notin> set (map fst (put k v xs))"
      using Cons.prems a False unfolding keys_put by auto
    then show ?thesis using Cons a False by simp
  qed
qed

lemma set_put: "set (put k v xs) \<subseteq> insert (k, v) (set xs)"
  by (induction xs) (auto split: if_splits)

lemma put_mem: "(k, v) \<in> set (put k v xs)"
  by (induction xs) auto

lemma length_insertBy: "length (insertBy cmp x xs) = Suc (length xs)"
  by (induction xs) auto

lemma length_sortBy: "length (sortBy cmp xs) = length xs"
proof -
  have "\<And>acc. length (foldl (\<lambda>sorted x. insertBy cmp x sorted) acc xs) = length acc + length xs"
    by (induction xs) (auto simp: length_insertBy)
  then show ?thesis by (simp add: sortBy_def)
qed

lemma wf_attendance_put:
  assumes "wf_attendance ds" and "k = AttendanceRecord.studentAccount d @ ''_'' @ AttendanceRecord.date d"
  shows "wf_attendance (put k d ds)"
  using assms set_put[of k d ds] unfolding wf_attendance_def
  by (auto simp: distinct_put)

lemma filter_single:
  "distinct (map fst xs) \<Longrightarrow> (k, v) \<in> set xs \<Longrightarrow> P (k, v) \<Longrightarrow>
     (\<forall>x \<in> set xs. P x \<longrightarrow> fst x = k) \<Longrightarrow> filter P xs = [(k, v)]"
proof (induction xs)
  case Nil
  then show ?case by simp
next
  case (Cons a xs)
  show ?case
  proof (cases "a = (k, v)")
    case True
    have "\<forall>x \<in> set xs. \<not> P x"
      using Cons.prems True by (auto simp: image_iff)
    then have "filter P xs = []" by (simp add: filter_empty_conv)
    then show ?thesis using True Cons.prems by simp
  next
    case False
    then have in_xs: "(k, v) \<in> set xs" using Cons.prems by simp
    have "\<not> P a"
    proof
      assume "P a"
      then have "fst a = k" using Cons.prems by simp
      then show False using Cons.prems(1) in_xs by (auto simp: image_iff)
    qed
    then show ?thesis using Cons in_xs by simp
  qed
qed

lemma wf_single:
  assumes "wf_attendance ds" and "(k, d) \<in> set ds"
  shows "recordsFor (AttendanceRecord.studentAccount d) (AttendanceRecord.date d) ds = [(k, d)]"
  unfolding recordsFor_def
proof (rule filter_single)
  show "distinct (map fst ds)"
    using assms(1) by (simp add: wf_attendance_def)
  show "(k, d) \<in> set ds"
    by (rule assms(2))
  show "case (k, d) of (i, d') \<Rightarrow> AttendanceRecord.studentAccount d' = AttendanceRecord.studentAccount d \<and>
          AttendanceRecord.date d' = AttendanceRecord.date d"
    by simp
  have ids: "\<And>i e. (i, e) \<in> set ds \<Longrightarrow>
      i = AttendanceRecord.studentAccount e @ ''_'' @ AttendanceRecord.date e"
    using assms(1) unfolding wf_attendance_def by blast
  show "\<forall>x \<in> set ds. (case x of (i, d') \<Rightarrow>
          AttendanceRecord.studentAccount d' = AttendanceRecord.studentAccount d \<and>
          AttendanceRecord.date d' = AttendanceRecord.date d) \<longrightarrow> fst x = k"
  proof (intro ballI impI)
    fix x assume x: "x \<in> set ds" and m: "case x of (i, d') \<Rightarrow>
          AttendanceRecord.studentAccount d' = AttendanceRecord.studentAccount d \<and>
          AttendanceRecord.date d' = AttendanceRecord.date d"
    obtain i e where xe: "x = (i, e)" by (cases x)
    have "i = AttendanceRecord.studentAccount e @ ''_'' @ AttendanceRecord.date e"
      using ids x xe by simp
    moreover have "k = AttendanceRecord.studentAccount d @ ''_'' @ AttendanceRecord.date d"
      using ids assms(2) by simp
    ultimately show "fst x = k" using m xe by simp
  qed
qed

lemma access_docs: "docs (snd (access st)) = docs st"
  by (simp add: access_def split: list.splits)

lemma getDocs_docs: "docs (snd (getDocs st P)) = docs st"
proof (cases "access st")
  case (Pair f st')
  then have "docs st' = docs st" using access_docs[of st] by simp
  then show ?thesis using Pair by (cases f) (simp_all add: getDocs_def)
qed

lemma setDoc_effect:
  assumes "setDoc st k d = (r, st')"
  shows "(case r of Inl e \<Rightarrow> docs st' = docs st | Inr u \<Rightarrow> docs st' = put k d (docs st))"
proof (cases "access st")
  case (Pair f st1)
  then have "docs st1 = docs st" using access_docs[of st] by simp
  then show ?thesis using Pair assms by (cases f) (auto simp: setDoc_def)
qed

lemma updateDoc_effect:
  assumes "updateDoc st k w = (r, st')"
  shows "(case r of Inl e \<Rightarrow> docs st' = docs st
          | Inr u \<Rightarrow> (\<exists>d. map_of (docs st) k = Some d \<and> docs st' = put k (w d) (docs st)))"
proof (cases "access st")
  case (Pair f st1)
  then have same: "docs st1 = docs st" using access_docs[of st] by simp
  show ?thesis
  proof (cases f)
    case None
    then show ?thesis using Pair assms same
      by (cases "map_of (docs st) k") (auto simp: updateDoc_def)
  next
    case (Some e)
    then show ?thesis using Pair assms same by (auto simp: updateDoc_def)
  qed
qed

lemma getAttendanceRecords_docs: "docs (snd (getAttendanceRecords st f now)) = docs st"
proof -
  let ?P = "\<lambda>d. restricts (AttendanceFilter.date f) (AttendanceRecord.date d) \<and>
                 restricts (AttendanceFilter.studentAccount f) (AttendanceRecord.studentAccount d)"
  obtain r st' where g: "getDocs st ?P = (r, st')" by (cases "getDocs st ?P")
  then have "docs st' = docs st" using getDocs_docs[of st ?P] by simp
  then show ?thesis using g
    by (cases r) (simp_all add: getAttendanceRecords_def Let_def)
qed

lemma markAttendance_effect:
  assumes "markAttendance st acct when present markedBy now = (r, st')"
  shows "(r = Inr () \<longrightarrow>
            (\<exists>d. docs st' = put (acct @ ''_'' @ format_ymd when) d (docs st) \<and>
                 AttendanceRecord.studentAccount d = acct \<and>
                 AttendanceRecord.date d = format_ymd when)) \<and>
         (r \<noteq> Inr () \<longrightarrow> docs st' = docs st)"
proof -
  let ?f = "\<lparr>AttendanceFilter.date = Some (format_ymd when), studentAccount = Some acct,
             group = None\<rparr>"
  let ?k = "acct @ ''_'' @ format_ymd when"
  obtain rs st1 where g: "getAttendanceRecords st ?f now = (rs, st1)"
    by (cases "getAttendanceRecords st ?f now")
  then have same: "docs st1 = docs st"
    using getAttendanceRecords_docs[of st ?f now] by simp
  show ?thesis
  proof (cases "length rs > 0")
    case True
    let ?w = "\<lambda>d. d\<lparr>AttendanceRecord.studentAccount := acct,
                      AttendanceRecord.date := format_ymd when,
                      AttendanceRecord.isPresent := Some present,
                      AttendanceRecord.updatedAt := now,
                      AttendanceRecord.updatedBy := markedBy\<rparr>"
    obtain w st2 where u: "updateDoc st1 ?k ?w = (w, st2)"
      by (cases "updateDoc st1 ?k ?w")
    have res: "(r, st') = (case w of Inl e \<Rightarrow> (Inl CannotSaveAttendance, st2) | Inr x \<Rightarrow> (Inr (), st2))"
      using assms g u True by (simp add: markAttendance_def Let_def)
    from updateDoc_effect[OF u] same res show ?thesis
      by (cases w) auto
  next
    case False
    let ?d = "\<lparr>AttendanceRecord.id' = None, studentAccount = acct,
                   date = format_ymd when, isPresent = Some present,
                   participationCount = Some 0, createdAt = Some now, updatedAt = now,
                   updatedBy = markedBy\<rparr>"
    obtain w st2 where u: "setDoc st1 ?k ?d = (w, st2)"
      by (cases "setDoc st1 ?k ?d")
    have res: "(r, st') = (case w of Inl e \<Rightarrow> (Inl CannotSaveAttendance, st2) | Inr x \<Rightarrow> (Inr (), st2))"
      using assms g u False by (simp add: markAttendance_def Let_def)
    from setDoc_effect[OF u] same res show ?thesis
      by (cases w) auto
  qed
qed

lemma wf_attendance_markAttendance:
  assumes "wf_attendance (docs st)"
    and "markAttendance st acct when present markedBy now = (r, st')"
  shows "wf_attendance (docs st')"
proof (cases "r = Inr ()")
  case True
  then obtain d where "docs st' = put (acct @ ''_'' @ format_ymd when) d (docs st)"
      "AttendanceRecord.studentAccount d = acct" "AttendanceRecord.date d = format_ymd when"
    using markAttendance_effect[OF assms(2)] by blast
  then show ?thesis using wf_attendance_put[OF assms(1), of "acct @ ''_'' @ format_ymd when" d] by simp
next
  case False
  then show ?thesis using markAttendance_effect[OF assms(2)] assms(1) by simp
qed

text \<open>
  C7. In a collection that the attendance service has written, for every account, date
  and actor: when the attendance upsert is called twice with the same arguments and the
  second call returns normally, the store holds exactly one attendance record for the
  account and the date. The collection stays well formed, so no account and no session
  ever has more than one record.
\<close>

theorem attendance_upsert_idempotent:
  assumes "wf_attendance (docs st)"
    and "markAttendance st acct when present markedBy now = (r, st1)"
    and "markAttendance st1 acct when present markedBy now' = (Inr (), st2)"
  shows "length (recordsFor acct (format_ymd when) (docs st2)) = 1 \<and> wf_attendance (docs st2) \<and>
         (\<forall>a d. length (recordsFor a d (docs st2)) \<le> 1)"
proof -
  have wf1: "wf_attendance (docs st1)"
    using wf_attendance_markAttendance[OF assms(1,2)] .
  have wf2: "wf_attendance (docs st2)"
    using wf_attendance_markAttendance[OF wf1 assms(3)] .
  obtain d where d: "docs st2 = put (acct @ ''_'' @ format_ymd when) d (docs st1)"
      "AttendanceRecord.studentAccount d = acct" "AttendanceRecord.date d = format_ymd when"
    using markAttendance_effect[OF assms(3)] by blast
  have "(acct @ ''_'' @ format_ymd when, d) \<in> set (docs st2)"
    unfolding d(1) by (rule put_mem)
  from wf_single[OF wf2 this] have one: "length (recordsFor acct (format_ymd when) (docs st2)) = 1"
    using d by simp
  have "length (recordsFor a dt (docs st2)) \<le> 1" for a dt
  proof (cases "recordsFor a dt (docs st2)")
    case Nil
    then show ?thesis by simp
  next
    case (Cons x xs)
    then have "x \<in> set (recordsFor a dt (docs st2))" by simp
    then have x: "x \<in> set (docs st2)" "AttendanceRecord.studentAccount (snd x) = a"
        "AttendanceRecord.date (snd x) = dt"
      by (auto simp: recordsFor_def)
    from wf_single[OF wf2, of "fst x" "snd x"] x show ?thesis by simp
  qed
  with one wf2 show ?thesis by blast
qed

theorem attendance_upsert_idempotent_witness:
  "wf_attendance (docs emptyAttendance) \<and>
   fst (markAttendance (snd (markAttendance emptyAttendance ''23520001'' march7 True ''gv'' 1))
          ''23520001'' march7 True ''gv'' 2) = Inr () \<and>
   length (recordsFor ''23520001'' (format_ymd march7)
     (docs (snd (markAttendance
                   (snd (markAttendance emptyAttendance ''23520001'' march7 True ''gv'' 1))
                   ''23520001'' march7 True ''gv'' 2)))) = 1"
proof (intro conjI)
  let ?c1 = "markAttendance emptyAttendance ''23520001'' march7 True ''gv'' 1"
  let ?c2 = "markAttendance (snd ?c1) ''23520001'' march7 True ''gv'' 2"
  show wf: "wf_attendance (docs emptyAttendance)"
    by (simp add: wf_attendance_def emptyAttendance_def)
  show ok: "fst ?c2 = Inr ()"
    by code_simp
  have first: "?c1 = (fst ?c1, snd ?c1)"
    by (rule prod.collapse[symmetric])
  have second: "?c2 = (Inr (), snd ?c2)"
    by (rule prod_eqI) (simp_all only: fst_conv snd_conv ok)
  from attendance_upsert_idempotent[OF wf first second]
  show "length (recordsFor ''23520001'' (format_ymd march7) (docs (snd ?c2))) = 1"
    by (rule conjunct1)
qed

text \<open>
  When the existence check goes through and finds the record of the account and the
  date, a successful upsert leaves the contributions and the creation time of the record
  as they were.
\<close>

lemma attendance_upsert_keeps_count:
  assumes wf: "wf_attendance (docs st)"
    and through: "fst (access st) = None"
    and there: "(i, d) \<in> set (docs st)" "AttendanceRecord.studentAccount d = acct"
      "AttendanceRecord.date d = format_ymd when"
    and ok: "markAttendance st acct when present markedBy now = (Inr (), st')"
  shows "\<exists>d'. map_of (docs st') (acct @ ''_'' @ format_ymd when) = Some d' \<and>
           participationCount d' = participationCount d \<and>
           AttendanceRecord.createdAt d' = AttendanceRecord.createdAt d \<and>
           isPresent d' = Some present"
proof -
  let ?f = "\<lparr>AttendanceFilter.date = Some (format_ymd when), studentAccount = Some acct,
             group = None\<rparr>"
  let ?k = "acct @ ''_'' @ format_ymd when"
  let ?P = "\<lambda>d. restricts (AttendanceFilter.date ?f) (AttendanceRecord.date d) \<and>
                 restricts (AttendanceFilter.studentAccount ?f) (AttendanceRecord.studentAccount d)"
  let ?w = "\<lambda>d. d\<lparr>AttendanceRecord.studentAccount := acct,
                    AttendanceRecord.date := format_ymd when,
                    AttendanceRecord.isPresent := Some present,
                    AttendanceRecord.updatedAt := now,
                    AttendanceRecord.updatedBy := markedBy\<rparr>"
  obtain st1 where a: "access st = (None, st1)"
    using through by (cases "access st") simp
  then have same: "docs st1 = docs st" using access_docs[of st] by simp
  have "\<forall>(i, d) \<in> set (docs st).
      i = AttendanceRecord.studentAccount d @ ''_'' @ AttendanceRecord.date d"
    using wf unfolding wf_attendance_def by (rule conjunct2)
  from bspec[OF this there(1)] have "i = ?k"
    using there(2,3) by simp
  moreover have "distinct (map fst (docs st))"
    using wf unfolding wf_attendance_def by (rule conjunct1)
  ultimately have at_k: "map_of (docs st) ?k = Some d"
    using there(1) by simp
  have "?P d" using there by (simp add: restricts_def)
  then have "(i, d) \<in> set (filter (\<lambda>(i, d). ?P d) (docs st))"
    using there(1) by simp
  then have found: "length (filter (\<lambda>(i, d). ?P d) (docs st)) > 0"
    by (rule length_pos_if_in_set)
  have g: "getDocs st ?P = (Inr (filter (\<lambda>(i, d). ?P d) (docs st)), st1)"
    using a same by (simp add: getDocs_def)
  define rs where "rs = fst (getAttendanceRecords st ?f now)"
  have "length rs = length (filter (\<lambda>(i, d). ?P d) (docs st))"
    unfolding rs_def using g by (simp add: getAttendanceRecords_def Let_def length_sortBy)
  with found have "rs \<noteq> []" by auto
  moreover have "getAttendanceRecords st ?f now = (rs, st1)"
    unfolding rs_def using g by (simp add: getAttendanceRecords_def Let_def)
  ultimately have rs: "getAttendanceRecords st ?f now = (rs, st1)" "rs \<noteq> []"
    by simp_all
  obtain w st2 where u: "updateDoc st1 ?k ?w = (w, st2)"
    by (cases "updateDoc st1 ?k ?w")
  have "(Inr (), st') = (case w of Inl e \<Rightarrow> (Inl CannotSaveAttendance, st2) | Inr x \<Rightarrow> (Inr (), st2))"
    using ok rs u by (simp add: markAttendance_def Let_def)
  then have "w = Inr () \<and> st2 = st'" by (cases w) simp_all
  with updateDoc_effect[OF u] same at_k have "docs st' = put ?k (?w d) (docs st)"
    by simp
  then have "map_of (docs st') ?k = Some (?w d)" by (simp add: map_of_put)
  then show ?thesis by simp
qed

text \<open>
  C10. The attendance upsert is meant to keep \<^verbatim>\<open>participationCount\<close> of an existing
  record and to set it to 0, with \<^verbatim>\<open>createdAt\<close>, only for a new record. The existence
  check reads through \<^const>\<open>getAttendanceRecords\<close>, which answers a failed read with an
  empty list. On \<^const>\<open>attendedStore\<close> the read fails and the write goes through: the
  call returns normally, and the record that held 3 contributions since time 1 now
  holds 0 since time 5.
\<close>

theorem attendance_upsert_resets_count:
  "map_option participationCount (map_of (docs attendedStore) ''23520001_2024-03-07'')
     = Some (Some 3) \<and>
   map_option AttendanceRecord.createdAt (map_of (docs attendedStore) ''23520001_2024-03-07'')
     = Some (Some 1) \<and>
   fst (markAttendance attendedStore ''23520001'' march7 False ''gv'' 5) = Inr () \<and>
   map_option participationCount
     (map_of (docs (snd (markAttendance attendedStore ''23520001'' march7 False ''gv'' 5)))
        ''23520001_2024-03-07'') = Some (Some 0) \<and>
   map_option AttendanceRecord.createdAt
     (map_of (docs (snd (markAttendance attendedStore ''23520001'' march7 False ''gv'' 5)))
        ''23520001_2024-03-07'') = Some (Some 5)"
  by code_simp

subsection \<open>The grade upsert and its total\<close>

lemma access_result:
  "access st = (case faults st of [] \<Rightarrow> None | f # fs \<Rightarrow> f, st\<lparr>faults := tl (faults st)\<rparr>)"
  by (cases "faults st") (simp_all add: access_def)

lemma access_through:
  assumes "\<forall>f \<in> set (take (Suc n) (faults st)). f = None"
  shows "access st = (None, st\<lparr>faults := tl (faults st)\<rparr>) \<and>
         (\<forall>f \<in> set (take n (tl (faults st))). f = None)"
  using assms by (cases "faults st") (simp_all add: access_def)

lemma grades_filter:
  assumes "wf_grades ds"
  shows "filter (\<lambda>(i, d). GradeRecord.studentAccount d = acct) ds =
           (case map_of ds acct of None \<Rightarrow> [] | Some d \<Rightarrow> [(acct, d)])"
proof -
  have dist: "distinct (map fst ds)"
    using assms unfolding wf_grades_def by (rule conjunct1)
  have ids: "\<And>i e. (i, e) \<in> set ds \<Longrightarrow> i = GradeRecord.studentAccount e"
    using assms unfolding wf_grades_def by blast
  show ?thesis
  proof (cases "map_of ds acct")
    case None
    have "\<forall>x \<in> set ds. \<not> (case x of (i, d) \<Rightarrow> GradeRecord.studentAccount d = acct)"
    proof
      fix x assume x: "x \<in> set ds"
      obtain i e where xe: "x = (i, e)" by (cases x)
      have "i \<noteq> acct"
        using None x xe by (metis map_of_eq_None_iff fst_conv image_eqI)
      then show "\<not> (case x of (i, d) \<Rightarrow> GradeRecord.studentAccount d = acct)"
        using ids x xe by auto
    qed
    then have "filter (\<lambda>(i, d). GradeRecord.studentAccount d = acct) ds = []"
      by (simp add: filter_empty_conv)
    then show ?thesis using None by simp
  next
    case (Some d)
    then have mem: "(acct, d) \<in> set ds" by (rule map_of_SomeD)
    have "filter (\<lambda>(i, d). GradeRecord.studentAccount d = acct) ds = [(acct, d)]"
    proof (rule filter_single[OF dist mem])
      show "case (acct, d) of (i, d) \<Rightarrow> GradeRecord.studentAccount d = acct"
        using ids[OF mem] by simp
      show "\<forall>x\<in>set ds. (case x of (i, d) \<Rightarrow> GradeRecord.studentAccount d = acct) \<longrightarrow> fst x = acct"
      proof (intro ballI impI)
        fix x assume x: "x \<in> set ds"
          and m: "case x of (i, d) \<Rightarrow> GradeRecord.studentAccount d = acct"
        obtain i e where xe: "x = (i, e)" by (cases x)
        then show "fst x = acct" using ids x m by auto
      qed
    qed
    then show ?thesis using Some by simp
  qed
qed

lemma getGradesByStudent_through:
  assumes "wf_grades (docs st)" and "access st = (None, st1)"
  shows "getGradesByStudent st acct =
           (Inr (map_option (\<lambda>d. d\<lparr>GradeRecord.id' := Some acct\<rparr>) (map_of (docs st) acct)), st1)"
proof -
  have same: "docs st1 = docs st" using access_docs[of st] assms(2) by simp
  have g: "getDocs st (\<lambda>d. GradeRecord.studentAccount d = acct) =
      (Inr (case map_of (docs st) acct of None \<Rightarrow> [] | Some d \<Rightarrow> [(acct, d)]), st1)"
    using assms(2) same grades_filter[OF assms(1), of acct] by (simp add: getDocs_def)
  show ?thesis
    unfolding getGradesByStudent_def g
    by (cases "map_of (docs st) acct") simp_all
qed

lemma getGradesByStudent_rejected:
  assumes "access st = (Some e, st1)"
  shows "getGradesByStudent st acct = (Inl CannotLoadStudentGrades, st1)"
  using assms by (simp add: getGradesByStudent_def getDocs_def)

lemma total_step_cong:
  assumes "\<forall>k. grade_of k a = grade_of k b"
  shows "total_step a = total_step b"
proof (intro ext)
  fix s :: "jsnum \<times> rat" and kw :: "GradeType \<times> rat"
  obtain t tw where s: "s = (t, tw)" by (cases s)
  obtain k w where kw: "kw = (k, w)" by (cases kw)
  show "total_step a s kw = total_step b s kw"
    using assms by (simp add: s kw)
qed

lemma calculateTotal_cong:
  assumes "\<forall>k. grade_of k a = grade_of k b"
  shows "calculateTotal a = calculateTotal b"
  unfolding calculateTotal_def total_step_cong[OF assms] ..

lemma grade_of_other_fields:
  "grade_of k (d\<lparr>GradeRecord.id' := i\<rparr>) = grade_of k d"
  "grade_of k (d\<lparr>total := t\<rparr>) = grade_of k d"
  "grade_of k (d\<lparr>GradeRecord.updatedAt := u\<rparr>) = grade_of k d"
  "grade_of k (d\<lparr>GradeRecord.updatedBy := b\<rparr>) = grade_of k d"
  "grade_of k (d\<lparr>GradeRecord.studentAccount := a\<rparr>) = grade_of k d"
  by (cases k; simp)+

lemma grade_of_set_grade: "grade_of k (set_grade k v d) = v"
  by (cases k) simp_all

lemma set_grade_other_fields:
  "GradeRecord.studentAccount (set_grade k v d) = GradeRecord.studentAccount d"
  "total (set_grade k v d) = total d"
  by (cases k; simp)+

lemma wf_grades_put:
  assumes "wf_grades ds" and "GradeRecord.studentAccount d = k"
  shows "wf_grades (put k d ds)"
  using assms set_put[of k d ds] unfolding wf_grades_def
  by (auto simp: distinct_put)

lemma recalculateTotal_through:
  assumes wf: "wf_grades (docs st)"
    and d: "map_of (docs st) acct = Some d"
    and through: "\<forall>f \<in> set (take 2 (faults st)). f = None"
  shows "docs (recalculateTotal st acct now) =
           put acct (d\<lparr>total := Some (calculateTotal d), GradeRecord.updatedAt := now\<rparr>) (docs st)"
proof -
  let ?st1 = "st\<lparr>faults := tl (faults st)\<rparr>"
  let ?st2 = "?st1\<lparr>faults := tl (faults ?st1)\<rparr>"
  have "\<forall>f \<in> set (take (Suc 1) (faults st)). f = None"
    using through by (simp add: numeral_2_eq_2)
  from access_through[OF this]
  have a1: "access st = (None, ?st1)" and rest: "\<forall>f \<in> set (take (Suc 0) (faults ?st1)). f = None"
    by simp_all
  from access_through[OF rest] have a2: "access ?st1 = (None, ?st2)"
    by simp
  have read: "getGradesByStudent st acct = (Inr (Some (d\<lparr>GradeRecord.id' := Some acct\<rparr>)), ?st1)"
    using getGradesByStudent_through[OF wf a1, of acct] d by simp
  have same_total: "calculateTotal (d\<lparr>GradeRecord.id' := Some acct\<rparr>) = calculateTotal d"
    by (rule calculateTotal_cong) (simp add: grade_of_other_fields)
  have "updateDoc ?st1 acct (\<lambda>e. e\<lparr>total := Some (calculateTotal d), GradeRecord.updatedAt := now\<rparr>)
          = (Inr (), ?st2\<lparr>docs := put acct (d\<lparr>total := Some (calculateTotal d),
                                              GradeRecord.updatedAt := now\<rparr>) (docs ?st2)\<rparr>)"
    using a2 d by (simp add: updateDoc_def)
  then show ?thesis
    by (simp add: recalculateTotal_def read same_total)
qed

lemma updateGrade_stages:
  assumes wf: "wf_grades (docs st)"
    and ok: "updateGrade st acct gtype v by now = (Inr (), st')"
  shows "\<exists>st2 d2. docs st2 = put acct d2 (docs st) \<and> faults st2 = drop 2 (faults st) \<and>
           GradeRecord.studentAccount d2 = acct \<and> grade_of gtype d2 = Some v \<and>
           total d2 = (case map_of (docs st) acct of None \<Rightarrow> None | Some d0 \<Rightarrow> total d0) \<and>
           st' = recalculateTotal st2 acct now"
proof -
  obtain f st1 where a1: "access st = (f, st1)" by (cases "access st")
  have "st1 = st\<lparr>faults := tl (faults st)\<rparr>"
    using a1 by (simp add: access_result)
  then have st1: "docs st1 = docs st" "faults st1 = tl (faults st)"
    by simp_all
  have "f = None"
  proof (rule ccontr)
    assume "f \<noteq> None"
    then obtain e where "f = Some e" by auto
    then have "getGradesByStudent st acct = (Inl CannotLoadStudentGrades, st1)"
      using a1 getGradesByStudent_rejected by simp
    then show False using ok by (simp add: updateGrade_def)
  qed
  then have read: "getGradesByStudent st acct =
      (Inr (map_option (\<lambda>d. d\<lparr>GradeRecord.id' := Some acct\<rparr>) (map_of (docs st) acct)), st1)"
    using getGradesByStudent_through[OF wf] a1 by simp
  let ?w = "\<lambda>d. set_grade gtype (Some v)
                 (d\<lparr>GradeRecord.studentAccount := acct, GradeRecord.updatedAt := now,
                    GradeRecord.updatedBy := by\<rparr>)"
  let ?new = "set_grade gtype (Some v)
                ((blankGrade acct)\<lparr>GradeRecord.updatedAt := now, GradeRecord.updatedBy := by\<rparr>)"
  define written where "written =
     (case map_option (\<lambda>d. d\<lparr>GradeRecord.id' := Some acct\<rparr>) (map_of (docs st) acct) of
        Some g \<Rightarrow> updateDoc st1 acct ?w | None \<Rightarrow> setDoc st1 acct ?new)"
  obtain r st2 where w: "written = (r, st2)" by (cases written)
  have res: "(Inr (), st') = (case r of Inl e \<Rightarrow> (Inl CannotUpdateGrade, st2)
                             | Inr u \<Rightarrow> (Inr (), recalculateTotal st2 acct now))"
    using ok read w unfolding updateGrade_def written_def Let_def by simp
  then have r: "r = Inr ()" and st': "st' = recalculateTotal st2 acct now"
    by (cases r; simp)+
  have f2: "faults st2 = tl (faults st1)"
    using w r unfolding written_def
    by (auto simp: updateDoc_def setDoc_def access_result split: option.splits)
  have "\<exists>d2. docs st2 = put acct d2 (docs st) \<and> GradeRecord.studentAccount d2 = acct \<and>
          grade_of gtype d2 = Some v \<and>
          total d2 = (case map_of (docs st) acct of None \<Rightarrow> None | Some d0 \<Rightarrow> total d0)"
  proof (cases "map_of (docs st) acct")
    case None
    then have "setDoc st1 acct ?new = (Inr (), st2)"
      using w r by (simp add: written_def)
    from setDoc_effect[OF this] have "docs st2 = put acct ?new (docs st)"
      using st1 by simp
    moreover have "GradeRecord.studentAccount ?new = acct"
      by (simp add: set_grade_other_fields blankGrade_def)
    moreover have "grade_of gtype ?new = Some v"
      by (rule grade_of_set_grade)
    moreover have "total ?new = None"
      by (simp add: set_grade_other_fields blankGrade_def)
    ultimately show ?thesis using None by (intro exI[of _ ?new]) simp
  next
    case (Some d)
    then have "updateDoc st1 acct ?w = (Inr (), st2)"
      using w r by (simp add: written_def)
    from updateDoc_effect[OF this] have "docs st2 = put acct (?w d) (docs st)"
      using st1 Some by simp
    moreover have "GradeRecord.studentAccount (?w d) = acct"
      by (simp add: set_grade_other_fields)
    moreover have "grade_of gtype (?w d) = Some v"
      by (rule grade_of_set_grade)
    moreover have "total (?w d) = total d"
      by (simp add: set_grade_other_fields)
    ultimately show ?thesis using Some by (intro exI[of _ "?w d"]) simp
  qed
  then obtain d2 where "docs st2 = put acct d2 (docs st)" "GradeRecord.studentAccount d2 = acct"
      "grade_of gtype d2 = Some v"
      "total d2 = (case map_of (docs st) acct of None \<Rightarrow> None | Some d0 \<Rightarrow> total d0)"
    by blast
  moreover have "faults st2 = drop 2 (faults st)"
    using f2 st1 by (simp add: drop_Suc numeral_2_eq_2 tl_drop)
  ultimately show ?thesis using st' by blast
qed

lemma recalculateTotal_rejected:
  assumes wf: "wf_grades (docs st)"
    and d: "map_of (docs st) acct = Some d"
    and rejected: "\<not> (\<forall>f \<in> set (take 2 (faults st)). f = None)"
  shows "docs (recalculateTotal st acct now) = docs st"
proof (cases "faults st")
  case Nil
  with rejected show ?thesis by simp
next
  case (Cons f fs)
  let ?st1 = "st\<lparr>faults := fs\<rparr>"
  show ?thesis
  proof (cases f)
    case (Some e)
    have "access st = (Some e, ?st1)"
      by (simp add: access_def Cons Some)
    from getGradesByStudent_rejected[OF this] show ?thesis
      by (simp add: recalculateTotal_def)
  next
    case None
    have a1: "access st = (None, ?st1)"
      by (simp add: access_def Cons None)
    have read: "getGradesByStudent st acct = (Inr (Some (d\<lparr>GradeRecord.id' := Some acct\<rparr>)), ?st1)"
      using getGradesByStudent_through[OF wf a1, of acct] d by simp
    obtain e fs' where fs: "fs = Some e # fs'"
      using rejected Cons None by (cases fs) (auto simp: numeral_2_eq_2)
    have "updateDoc ?st1 acct w = (Inl e, ?st1\<lparr>faults := fs'\<rparr>)" for w
      by (simp add: updateDoc_def access_def fs)
    then show ?thesis
      by (simp add: recalculateTotal_def read)
  qed
qed

lemma two_accesses:
  "(fst (access st) = None \<and> fst (access (snd (access st))) = None) =
     (\<forall>f \<in> set (take 2 (faults st)). f = None)"
proof (cases "faults st")
  case Nil
  then show ?thesis by (simp add: access_def)
next
  case (Cons f fs)
  then show ?thesis by (cases fs) (auto simp: access_def numeral_2_eq_2)
qed

lemma updateGrade_returns:
  assumes wf: "wf_grades (docs st)"
  shows "(fst (updateGrade st acct gtype v by now) = Inr ()) =
           (\<forall>f \<in> set (take 2 (faults st)). f = None)"
proof -
  obtain f1 st1 where a1: "access st = (f1, st1)" by (cases "access st")
  obtain f2 st2 where a2: "access st1 = (f2, st2)" by (cases "access st1")
  have same: "docs st1 = docs st" "docs st2 = docs st"
    using access_docs[of st] access_docs[of st1] a1 a2 by simp_all
  have "(fst (updateGrade st acct gtype v by now) = Inr ()) = (f1 = None \<and> f2 = None)"
  proof (cases f1)
    case (Some e)
    then have "getGradesByStudent st acct = (Inl CannotLoadStudentGrades, st1)"
      using a1 getGradesByStudent_rejected by simp
    then show ?thesis using Some by (simp add: updateGrade_def)
  next
    case None
    then have read: "getGradesByStudent st acct =
        (Inr (map_option (\<lambda>d. d\<lparr>GradeRecord.id' := Some acct\<rparr>) (map_of (docs st) acct)), st1)"
      using getGradesByStudent_through[OF wf] a1 by simp
    show ?thesis
    proof (cases "map_of (docs st) acct")
      case absent: None
      show ?thesis
        using None by (cases f2) (simp_all add: updateGrade_def read absent setDoc_def a2)
    next
      case (Some d)
      show ?thesis
        using None
        by (cases f2) (simp_all add: updateGrade_def read Some updateDoc_def a2 same)
    qed
  qed
  then show ?thesis
    using two_accesses[of st] a1 a2 by simp
qed

text \<open>
  C8 (amended). In a grade collection as the service writes it, one record for an
  account, stored under the account, a single-category grade upsert returns normally
  exactly when its lookup and its write go through. The stored record then holds the
  value written. When the two store accesses of the recompute step, the read-back and
  the write of the total, go through, the stored total is the weighted total of the
  stored category scores. When one of them is rejected, the failure is caught and logged
  and the total stays what it was before the upsert, none for a new record. The upsert
  takes a grade type, which is never the total.
\<close>

theorem grade_upsert_recomputes_total:
  assumes wf: "wf_grades (docs st)"
  shows "(fst (updateGrade st acct gtype v by now) = Inr () \<longleftrightarrow>
            (\<forall>f \<in> set (take 2 (faults st)). f = None)) \<and>
         (fst (updateGrade st acct gtype v by now) = Inr () \<longrightarrow>
            (\<exists>d. map_of (docs (snd (updateGrade st acct gtype v by now))) acct = Some d \<and>
                 grade_of gtype d = Some v \<and>
                 ((\<forall>f \<in> set (take 2 (drop 2 (faults st))). f = None) \<longrightarrow>
                    total d = Some (calculateTotal d)) \<and>
                 (\<not> (\<forall>f \<in> set (take 2 (drop 2 (faults st))). f = None) \<longrightarrow>
                    total d = (case map_of (docs st) acct of
                                 None \<Rightarrow> None | Some d0 \<Rightarrow> total d0))))"
proof (intro conjI impI)
  show "fst (updateGrade st acct gtype v by now) = Inr () \<longleftrightarrow>
          (\<forall>f \<in> set (take 2 (faults st)). f = None)"
    by (rule updateGrade_returns[OF wf])
next
  let ?st' = "snd (updateGrade st acct gtype v by now)"
  assume "fst (updateGrade st acct gtype v by now) = Inr ()"
  then have ok: "updateGrade st acct gtype v by now = (Inr (), ?st')"
    by (intro prod_eqI) simp_all
  obtain st2 d2 where s: "docs st2 = put acct d2 (docs st)" "faults st2 = drop 2 (faults st)"
      "GradeRecord.studentAccount d2 = acct" "grade_of gtype d2 = Some v"
      "total d2 = (case map_of (docs st) acct of None \<Rightarrow> None | Some d0 \<Rightarrow> total d0)"
      "?st' = recalculateTotal st2 acct now"
    using updateGrade_stages[OF wf ok] by blast
  have wf2: "wf_grades (docs st2)"
    unfolding s(1) using wf s(3) by (rule wf_grades_put)
  have d2: "map_of (docs st2) acct = Some d2"
    by (simp add: s(1) map_of_put)
  show "\<exists>d. map_of (docs ?st') acct = Some d \<and> grade_of gtype d = Some v \<and>
          ((\<forall>f \<in> set (take 2 (drop 2 (faults st))). f = None) \<longrightarrow>
             total d = Some (calculateTotal d)) \<and>
          (\<not> (\<forall>f \<in> set (take 2 (drop 2 (faults st))). f = None) \<longrightarrow>
             total d = (case map_of (docs st) acct of None \<Rightarrow> None | Some d0 \<Rightarrow> total d0))"
  proof (cases "\<forall>f \<in> set (take 2 (drop 2 (faults st))). f = None")
    case True
    then have through: "\<forall>f \<in> set (take 2 (faults st2)). f = None"
      by (simp only: s(2))
    let ?d = "d2\<lparr>total := Some (calculateTotal d2), GradeRecord.updatedAt := now\<rparr>"
    have "docs ?st' = put acct ?d (docs st2)"
      unfolding s(6) by (rule recalculateTotal_through[OF wf2 d2 through])
    then have "map_of (docs ?st') acct = Some ?d"
      by (simp add: map_of_put)
    moreover have "calculateTotal ?d = calculateTotal d2"
      by (rule calculateTotal_cong) (simp add: grade_of_other_fields)
    moreover have "grade_of gtype ?d = Some v"
      using s(4) by (simp add: grade_of_other_fields)
    ultimately show ?thesis using True by simp
  next
    case False
    then have rejected: "\<not> (\<forall>f \<in> set (take 2 (faults st2)). f = None)"
      by (simp add: s(2))
    have "docs ?st' = docs st2"
      unfolding s(6) by (rule recalculateTotal_rejected[OF wf2 d2 rejected])
    then have stored: "map_of (docs ?st') acct = Some d2"
      by (simp only: d2)
    show ?thesis
    proof (intro exI[of _ d2] conjI impI)
      show "map_of (docs ?st') acct = Some d2"
        by (rule stored)
      show "grade_of gtype d2 = Some v"
        by (rule s(4))
      show "total d2 = (case map_of (docs st) acct of None \<Rightarrow> None | Some d0 \<Rightarrow> total d0)"
        by (rule s(5))
    next
      assume "\<forall>f \<in> set (take 2 (drop 2 (faults st))). f = None"
      with False show "total d2 = Some (calculateTotal d2)"
        by (rule notE)
    qed
  qed
qed

text \<open>
  On the empty collection the upsert of midterm = 8 creates the record with its total,
  and so does the upsert of final = 7 on the collection of \<^const>\<open>gradedStore\<close> when all
  four accesses go through. On \<^const>\<open>gradedStore\<close>, where the read-back is rejected, and
  on the same collection with the write of the total rejected, the upsert of final = 7
  returns normally and the total stays 8.
\<close>

theorem grade_upsert_recomputes_total_witness:
  "wf_grades (docs emptyGrades) \<and>
   fst (updateGrade emptyGrades ''23520001'' Midterm (Num 8) ''gv'' 1) = Inr () \<and>
   (\<exists>d. map_of (docs (snd (updateGrade emptyGrades ''23520001'' Midterm (Num 8) ''gv'' 1)))
          ''23520001'' = Some d \<and>
        grade_of Midterm d = Some (Num 8) \<and> total d = Some (calculateTotal d)) \<and>
   wf_grades (docs gradedStore) \<and>
   fst (updateGrade (gradedStore\<lparr>faults := [None, None, None, None]\<rparr>)
          ''23520001'' Final (Num 7) ''gv'' 5) = Inr () \<and>
   (\<exists>d. map_of (docs (snd (updateGrade (gradedStore\<lparr>faults := [None, None, None, None]\<rparr>)
                              ''23520001'' Final (Num 7) ''gv'' 5)))
          ''23520001'' = Some d \<and>
        grade_of Final d = Some (Num 7) \<and> total d = Some (calculateTotal d)) \<and>
   fst (updateGrade gradedStore ''23520001'' Final (Num 7) ''gv'' 5) = Inr () \<and>
   (\<exists>d. map_of (docs (snd (updateGrade gradedStore ''23520001'' Final (Num 7) ''gv'' 5)))
          ''23520001'' = Some d \<and>
        grade_of Final d = Some (Num 7) \<and> total d = Some (Num 8)) \<and>
   fst (updateGrade (gradedStore\<lparr>faults := [None, None, None, Some unavailable]\<rparr>)
          ''23520001'' Final (Num 7) ''gv'' 5) = Inr () \<and>
   (\<exists>d. map_of (docs (snd (updateGrade
                              (gradedStore\<lparr>faults := [None, None, None, Some unavailable]\<rparr>)
                              ''23520001'' Final (Num 7) ''gv'' 5)))
          ''23520001'' = Some d \<and>
        grade_of Final d = Some (Num 7) \<and> total d = Some (Num 8))"
proof -
  let ?c = "updateGrade emptyGrades ''23520001'' Midterm (Num 8) ''gv'' 1"
  let ?r = "updateGrade gradedStore ''23520001'' Final (Num 7) ''gv'' 5"
  let ?ws = "gradedStore\<lparr>faults := [None, None, None, Some unavailable]\<rparr>"
  let ?w = "updateGrade ?ws ''23520001'' Final (Num 7) ''gv'' 5"
  have wf_empty: "wf_grades (docs emptyGrades)"
    by (simp add: wf_grades_def emptyGrades_def)
  have wf_graded: "wf_grades (docs gradedStore)"
    by (simp add: wf_grades_def gradedStore_def blankGrade_def)
  have wf_write: "wf_grades (docs ?ws)"
    using wf_graded by simp
  let ?ts = "gradedStore\<lparr>faults := [None, None, None, None]\<rparr>"
  let ?t = "updateGrade ?ts ''23520001'' Final (Num 7) ''gv'' 5"
  have wf_through: "wf_grades (docs ?ts)"
    using wf_graded by simp
  have before: "map_of (docs gradedStore) ''23520001'' =
      Some ((blankGrade ''23520001'')\<lparr>midterm := Some (Num 8), total := Some (Num 8),
                                       GradeRecord.updatedAt := 1,
                                       GradeRecord.updatedBy := ''gv''\<rparr>)"
    by (simp add: gradedStore_def)
  note c = grade_upsert_recomputes_total[OF wf_empty, of "''23520001''" Midterm "Num 8" "''gv''" 1]
  note r = grade_upsert_recomputes_total[OF wf_graded, of "''23520001''" Final "Num 7" "''gv''" 5]
  note w = grade_upsert_recomputes_total[OF wf_write, of "''23520001''" Final "Num 7" "''gv''" 5]
  note t = grade_upsert_recomputes_total[OF wf_through, of "''23520001''" Final "Num 7" "''gv''" 5]
  have ok_t: "fst ?t = Inr ()"
    using conjunct1[OF t] by simp
  from mp[OF conjunct2[OF t] ok_t]
  have at_t: "\<exists>d. map_of (docs (snd ?t)) ''23520001'' = Some d \<and>
      grade_of Final d = Some (Num 7) \<and> total d = Some (calculateTotal d)"
    by simp
  have ok_c: "fst ?c = Inr ()"
    using conjunct1[OF c] by (simp add: emptyGrades_def)
  have ok_r: "fst ?r = Inr ()"
    using conjunct1[OF r] by (simp add: gradedStore_def)
  have ok_w: "fst ?w = Inr ()"
    using conjunct1[OF w] by simp
  from mp[OF conjunct2[OF c] ok_c]
  have at_c: "\<exists>d. map_of (docs (snd ?c)) ''23520001'' = Some d \<and>
      grade_of Midterm d = Some (Num 8) \<and> total d = Some (calculateTotal d)"
    by (simp add: emptyGrades_def)
  from mp[OF conjunct2[OF r] ok_r]
  have at_r: "\<exists>d. map_of (docs (snd ?r)) ''23520001'' = Some d \<and>
      grade_of Final d = Some (Num 7) \<and> total d = Some (Num 8)"
    by (simp add: before) (simp add: gradedStore_def)
  from mp[OF conjunct2[OF w] ok_w]
  have at_w: "\<exists>d. map_of (docs (snd ?w)) ''23520001'' = Some d \<and>
      grade_of Final d = Some (Num 7) \<and> total d = Some (Num 8)"
    by (simp add: before)
  show ?thesis
    by (intro conjI wf_empty wf_graded ok_c ok_t ok_r ok_w at_c at_t at_r at_w)
qed

text \<open>
  C8 as stated fails when an access of the recompute step is rejected: the failure is
  caught and logged, and the upsert still returns normally. On \<^const>\<open>gradedStore\<close> the
  upsert of final = 7 completes, and the stored total stays 8 where the weighted total of
  the stored scores is 7.43.
\<close>

theorem grade_upsert_stale_total:
  "fst (updateGrade gradedStore ''23520001'' Final (Num 7) ''gv'' 5) = Inr () \<and>
   map_option total
     (map_of (docs (snd (updateGrade gradedStore ''23520001'' Final (Num 7) ''gv'' 5)))
        ''23520001'') = Some (Some (Num 8)) \<and>
   map_option calculateTotal
     (map_of (docs (snd (updateGrade gradedStore ''23520001'' Final (Num 7) ''gv'' 5)))
        ''23520001'') = Some (Num (dbl (743 / 100)))"
  by code_simp

subsection \<open>Read-side queries when the store fails\<close>

lemma set_insertBy: "set (insertBy cmp x xs) = insert x (set xs)"
  by (induction xs) auto

lemma set_sortBy: "set (sortBy cmp xs) = set xs"
proof -
  have "\<And>acc. set (foldl (\<lambda>sorted x. insertBy cmp x sorted) acc xs) = set acc \<union> set xs"
    by (induction xs) (auto simp: set_insertBy)
  then show ?thesis by (simp add: sortBy_def)
qed

lemma getAllGrades_through:
  assumes "fst (access gs) = None"
  shows "\<exists>grades. fst (getAllGrades gs) = Inr grades \<and>
           set grades = (\<lambda>(i, d). d\<lparr>GradeRecord.id' := Some i\<rparr>) ` set (docs gs)"
proof -
  obtain st1 where a: "access gs = (None, st1)"
    using assms by (cases "access gs") simp
  have same: "docs st1 = docs gs"
    using access_docs[of gs] a by simp
  show ?thesis
    by (simp add: getAllGrades_def getDocs_def a same set_sortBy)
qed

lemma getGradeStats_zero:
  "fst (getGradeStats gs gtype) =
     Inr \<lparr>average = Num 0, highest = Num 0, lowest = Num 0, count = 0, distribution = []\<rparr> \<longleftrightarrow>
   fst (access gs) = None \<and> (\<forall>(i, d) \<in> set (docs gs). \<not> category_present d gtype)"
proof (cases "fst (access gs)")
  case (Some e)
  then obtain st1 where "access gs = (Some e, st1)"
    by (cases "access gs") simp
  then have "fst (getGradeStats gs gtype) = Inl CannotComputeGradeStats"
    by (simp add: getGradeStats_def getAllGrades_def getDocs_def)
  then show ?thesis using Some by simp
next
  case None
  from getAllGrades_through[OF this] obtain grades
    where g: "fst (getAllGrades gs) = Inr grades"
      and s: "set grades = (\<lambda>(i, d). d\<lparr>GradeRecord.id' := Some i\<rparr>) ` set (docs gs)"
    by blast
  define vals where "vals =
     concat (map (\<lambda>g. case grade_of gtype g of
                        None \<Rightarrow> [] | Some v \<Rightarrow> if v \<noteq> NaN then [v] else []) grades)"
  obtain st1 where all: "getAllGrades gs = (Inr grades, st1)"
    using g by (cases "getAllGrades gs") simp
  have stats: "fst (getGradeStats gs gtype) =
      Inr \<lparr>average = Num 0, highest = Num 0, lowest = Num 0, count = 0, distribution = []\<rparr> \<longleftrightarrow>
      vals = []"
    by (simp add: getGradeStats_def all Let_def vals_def[symmetric])
  have none: "(case grade_of gtype g of None \<Rightarrow> [] | Some v \<Rightarrow> if v \<noteq> NaN then [v] else []) = []
      \<longleftrightarrow> \<not> category_present g gtype" for g
  proof (cases "grade_of gtype g")
    case None
    then show ?thesis by (simp add: category_present_def)
  next
    case (Some v)
    then show ?thesis by (cases v) (simp_all add: category_present_def)
  qed
  have "vals = [] \<longleftrightarrow> (\<forall>g \<in> set grades. \<not> category_present g gtype)"
    unfolding vals_def by (simp add: none)
  also have "\<dots> \<longleftrightarrow> (\<forall>(i, d) \<in> set (docs gs). \<not> category_present d gtype)"
    unfolding s by (auto simp: category_present_def grade_of_other_fields)
  finally show ?thesis using stats None by simp
qed

text \<open>
  C9 (amended). When the store access fails, the attendance record listing returns an
  empty list and never propagates the failure, while the attendance statistics and the
  grade statistics rethrow it to the caller, each as its own error. The grade statistics
  return the zero-valued result exactly when the store access goes through and no record
  holds a value of the grade type, a number other than \<^verbatim>\<open>NaN\<close>.
\<close>

theorem read_side_failures:
  "(\<forall>e fs. faults st = Some e # fs \<longrightarrow>
      fst (getAttendanceRecords st filter' now) = [] \<and>
      fst (getAttendanceStats st startDate endDate) = Inl CannotComputeAttendanceStats) \<and>
   (\<forall>e fs. faults gs = Some e # fs \<longrightarrow>
      fst (getGradeStats gs gtype) = Inl CannotComputeGradeStats) \<and>
   (fst (getGradeStats gs gtype) =
      Inr \<lparr>average = Num 0, highest = Num 0, lowest = Num 0, count = 0, distribution = []\<rparr> \<longleftrightarrow>
    fst (access gs) = None \<and> (\<forall>(i, d) \<in> set (docs gs). \<not> category_present d gtype))"
proof (intro conjI allI impI)
  fix e fs
  assume "faults st = Some e # fs"
  then show "fst (getAttendanceRecords st filter' now) = []"
    by (simp add: getAttendanceRecords_def getDocs_def access_def)
next
  fix e fs
  assume "faults st = Some e # fs"
  then show "fst (getAttendanceStats st startDate endDate) = Inl CannotComputeAttendanceStats"
    by (simp add: getAttendanceStats_def getDocs_def access_def Let_def)
next
  fix e fs
  assume "faults gs = Some e # fs"
  then show "fst (getGradeStats gs gtype) = Inl CannotComputeGradeStats"
    by (simp add: getGradeStats_def getAllGrades_def getDocs_def access_def)
next
  show "fst (getGradeStats gs gtype) =
      Inr \<lparr>average = Num 0, highest = Num 0, lowest = Num 0, count = 0, distribution = []\<rparr> \<longleftrightarrow>
    fst (access gs) = None \<and> (\<forall>(i, d) \<in> set (docs gs). \<not> category_present d gtype)"
    by (rule getGradeStats_zero)
qed

text \<open>
  On \<^const>\<open>attendedStore\<close>, which holds a record, the listing is empty because the access is
  rejected; it is not empty when the access goes through. On \<^const>\<open>gradedStore\<close>, whose
  record has a midterm score and no final score, the statistics of the final scores are
  all zero and those of the midterm scores are not.
\<close>

theorem read_side_failures_witness:
  "faults attendedStore = Some unavailable # [] \<and>
   fst (getAttendanceRecords attendedStore
          \<lparr>AttendanceFilter.date = None, studentAccount = None, group = None\<rparr> 1) = [] \<and>
   fst (getAttendanceRecords (attendedStore\<lparr>faults := []\<rparr>)
          \<lparr>AttendanceFilter.date = None, studentAccount = None, group = None\<rparr> 1) \<noteq> [] \<and>
   fst (getAttendanceStats attendedStore march7 march7) = Inl CannotComputeAttendanceStats \<and>
   faults (gradedStore\<lparr>faults := [Some unavailable]\<rparr>) = Some unavailable # [] \<and>
   fst (getGradeStats (gradedStore\<lparr>faults := [Some unavailable]\<rparr>) Midterm)
     = Inl CannotComputeGradeStats \<and>
   fst (access gradedStore) = None \<and>
   fst (getGradeStats gradedStore Final) =
     Inr \<lparr>average = Num 0, highest = Num 0, lowest = Num 0, count = 0, distribution = []\<rparr> \<and>
   fst (getGradeStats gradedStore Midterm) \<noteq>
     Inr \<lparr>average = Num 0, highest = Num 0, lowest = Num 0, count = 0, distribution = []\<rparr>"
proof -
  let ?all = "\<lparr>AttendanceFilter.date = None, studentAccount = None, group = None\<rparr>"
  let ?down = "gradedStore\<lparr>faults := [Some unavailable]\<rparr>"
  let ?zero = "\<lparr>average = Num 0, highest = Num 0, lowest = Num 0, count = 0, distribution = []\<rparr>"
  have a: "faults attendedStore = Some unavailable # []"
    by (simp add: attendedStore_def)
  have g: "faults ?down = Some unavailable # []"
    by simp
  have through: "fst (access gradedStore) = None"
    by (simp add: access_def gradedStore_def)
  have listed: "fst (getAttendanceRecords (attendedStore\<lparr>faults := []\<rparr>) ?all 1) \<noteq> []"
    by code_simp
  have no_final: "\<forall>(i, d) \<in> set (docs gradedStore). \<not> category_present d Final"
    by (simp add: gradedStore_def category_present_def blankGrade_def)
  have midterm: "\<not> (\<forall>(i, d) \<in> set (docs gradedStore). \<not> category_present d Midterm)"
    by (simp add: gradedStore_def category_present_def blankGrade_def)
  note at = read_side_failures[of attendedStore ?all 1 march7 march7 ?down Midterm]
  have failing: "fst (getAttendanceRecords attendedStore ?all 1) = [] \<and>
      fst (getAttendanceStats attendedStore march7 march7) = Inl CannotComputeAttendanceStats"
    by (rule mp[OF spec[OF spec[OF conjunct1[OF at]]] a])
  have down: "fst (getGradeStats ?down Midterm) = Inl CannotComputeGradeStats"
    by (rule mp[OF spec[OF spec[OF conjunct1[OF conjunct2[OF at]]]] g])
  have final: "fst (getGradeStats gradedStore Final) = Inr ?zero"
    using conjunct2[OF conjunct2[OF read_side_failures[of attendedStore ?all 1 march7 march7
                                      gradedStore Final]]]
      through no_final by (simp only: simp_thms)
  have not_midterm: "fst (getGradeStats gradedStore Midterm) \<noteq> Inr ?zero"
    using conjunct2[OF conjunct2[OF read_side_failures[of attendedStore ?all 1 march7 march7
                                      gradedStore Midterm]]]
      through midterm by (simp only: simp_thms)
  show ?thesis
    by (intro conjI a g through listed conjunct1[OF failing] conjunct2[OF failing] down final
        not_midterm)
qed

text \<open>
  C9 as stated fails for both statistics queries: with the backend unavailable they
  return an error, not a zero-valued result.
\<close>

theorem stats_propagate_failure:
  "fst (getAttendanceStats (emptyAttendance\<lparr>faults := [Some unavailable]\<rparr>) march7 march7)
     = Inl CannotComputeAttendanceStats \<and>
   fst (getGradeStats (emptyGrades\<lparr>faults := [Some unavailable]\<rparr>) Midterm)
     = Inl CannotComputeGradeStats"
  by code_simp

subsection \<open>Bulk import\<close>

lemma validateRows_outcomes:
  "validateRows pn gtype i rs (errs, valid) =
     (errs @ [e. Inl e \<leftarrow> map (\<lambda>(j, r). validateRow pn gtype (j + 2) r) (enumerate i rs)],
      valid @ [g. Inr g \<leftarrow> map (\<lambda>(j, r). validateRow pn gtype (j + 2) r) (enumerate i rs)])"
proof (induction rs arbitrary: i errs valid)
  case Nil
  then show ?case by simp
next
  case (Cons r rs)
  show ?case
    by (cases "validateRow pn gtype (i + 2) r") (simp_all add: Cons.IH)
qed

lemma length_lefts: "length [e. Inl e \<leftarrow> outs] = length (filter isl outs)"
proof (induction outs)
  case Nil
  then show ?case by simp
next
  case (Cons a outs)
  then show ?case by (cases a) simp_all
qed

lemma length_rights: "length [g. Inr g \<leftarrow> outs] = length (filter (\<lambda>out. \<not> isl out) outs)"
proof (induction outs)
  case Nil
  then show ?case by simp
next
  case (Cons a outs)
  then show ?case by (cases a) simp_all
qed

lemma validateRows_all:
  "validateRows pn gtype 0 rows ([], []) =
     ([e. Inl e \<leftarrow> rowOutcomes pn gtype rows], [g. Inr g \<leftarrow> rowOutcomes pn gtype rows])"
  by (simp add: validateRows_outcomes rowOutcomes_def)

lemma validateRows_counts:
  obtains errs valid where
    "validateRows pn gtype 0 rows ([], []) = (errs, valid)"
    "length errs = length (filter isl (rowOutcomes pn gtype rows))"
    "length valid = length (filter (\<lambda>out. \<not> isl out) (rowOutcomes pn gtype rows))"
  using validateRows_all[of pn gtype rows] length_lefts length_rights by blast

text \<open>The import with a rejected row: nothing is written and the counts are those of the validation.\<close>

lemma upload_rejected:
  assumes "\<exists>out \<in> set (rowOutcomes pn gtype rows). isl out"
  shows "snd (processExcelUpload pn st rows gtype by now) = st \<and>
         \<not> success (fst (processExcelUpload pn st rows gtype by now)) \<and>
         processedCount (fst (processExcelUpload pn st rows gtype by now)) =
           length (filter (\<lambda>out. \<not> isl out) (rowOutcomes pn gtype rows)) \<and>
         length (errors (fst (processExcelUpload pn st rows gtype by now))) =
           length (filter isl (rowOutcomes pn gtype rows))"
proof -
  obtain errs valid where v: "validateRows pn gtype 0 rows ([], []) = (errs, valid)"
    and errs: "length errs = length (filter isl (rowOutcomes pn gtype rows))"
    and valid: "length valid = length (filter (\<lambda>out. \<not> isl out) (rowOutcomes pn gtype rows))"
    by (rule validateRows_counts)
  have ne: "filter isl (rowOutcomes pn gtype rows) \<noteq> []"
    using assms by (simp add: filter_empty_conv)
  then have "errs \<noteq> []" using errs by auto
  then show ?thesis
    using errs valid ne by (simp add: processExcelUpload_def v)
qed

text \<open>
  C3. For every batch of rows submitted to the bulk grade import: if at least one row
  fails validation, then nothing is written to the store (the store is not even
  accessed), the import is not a success, and the reported \<^verbatim>\<open>processedCount\<close> is the
  number of rows that passed validation, as the number of reported errors is the number
  of rows that failed it.
\<close>

theorem bulk_import_all_or_nothing:
  assumes "\<exists>out \<in> set (rowOutcomes pn gtype rows). isl out"
  shows "snd (processExcelUpload pn st rows gtype by now) = st \<and>
         \<not> success (fst (processExcelUpload pn st rows gtype by now)) \<and>
         processedCount (fst (processExcelUpload pn st rows gtype by now)) =
           length (filter (\<lambda>out. \<not> isl out) (rowOutcomes pn gtype rows)) \<and>
         length (errors (fst (processExcelUpload pn st rows gtype by now))) =
           length (filter isl (rowOutcomes pn gtype rows))"
  using assms by (rule upload_rejected)

theorem bulk_import_all_or_nothing_witness:
  "(\<exists>out \<in> set (rowOutcomes printWholeNumber Midterm (threeRows @ [rowWithoutAccount])). isl out) \<and>
   snd (processExcelUpload printWholeNumber emptyGrades (threeRows @ [rowWithoutAccount])
          Midterm ''gv'' 1) = emptyGrades \<and>
   processedCount (fst (processExcelUpload printWholeNumber emptyGrades
                          (threeRows @ [rowWithoutAccount]) Midterm ''gv'' 1)) =
     length (filter (\<lambda>out. \<not> isl out)
               (rowOutcomes printWholeNumber Midterm (threeRows @ [rowWithoutAccount]))) \<and>
   length (filter (\<lambda>out. \<not> isl out)
             (rowOutcomes printWholeNumber Midterm (threeRows @ [rowWithoutAccount]))) = 3"
proof (intro conjI)
  show bad: "\<exists>out \<in> set (rowOutcomes printWholeNumber Midterm (threeRows @ [rowWithoutAccount])).
               isl out"
    by code_simp
  note gate = bulk_import_all_or_nothing[OF bad, of emptyGrades "''gv''" 1]
  from gate show "snd (processExcelUpload printWholeNumber emptyGrades
                         (threeRows @ [rowWithoutAccount]) Midterm ''gv'' 1) = emptyGrades"
    by (rule conjunct1)
  from gate show "processedCount (fst (processExcelUpload printWholeNumber emptyGrades
                          (threeRows @ [rowWithoutAccount]) Midterm ''gv'' 1)) =
     length (filter (\<lambda>out. \<not> isl out)
               (rowOutcomes printWholeNumber Midterm (threeRows @ [rowWithoutAccount])))"
    by (rule conjunct1[OF conjunct2[OF conjunct2]])
  show "length (filter (\<lambda>out. \<not> isl out)
             (rowOutcomes printWholeNumber Midterm (threeRows @ [rowWithoutAccount]))) = 3"
    by code_simp
qed

lemma access_no_faults: "faults st = [] \<Longrightarrow> access st = (None, st)"
  by (simp add: access_def)

lemma recalculateTotal_no_faults:
  assumes wf: "wf_grades (docs st)" and quiet: "faults st = []"
    and d: "map_of (docs st) acct = Some d"
  shows "recalculateTotal st acct now =
           st\<lparr>docs := put acct (d\<lparr>total := Some (calculateTotal (d\<lparr>GradeRecord.id' := Some acct\<rparr>)),
                                   GradeRecord.updatedAt := now\<rparr>) (docs st)\<rparr>"
proof -
  have a: "access st = (None, st)" using quiet by (rule access_no_faults)
  have read: "getGradesByStudent st acct = (Inr (Some (d\<lparr>GradeRecord.id' := Some acct\<rparr>)), st)"
    using getGradesByStudent_through[OF wf a, of acct] d by simp
  show ?thesis
    by (simp add: recalculateTotal_def read updateDoc_def a d)
qed

lemma updateGrade_no_faults:
  assumes wf: "wf_grades (docs st)" and quiet: "faults st = []"
  shows "\<exists>st'. updateGrade st acct gtype v by now = (Inr (), st') \<and>
               wf_grades (docs st') \<and> faults st' = []"
proof -
  have a: "access st = (None, st)" using quiet by (rule access_no_faults)
  have read: "getGradesByStudent st acct =
      (Inr (map_option (\<lambda>d. d\<lparr>GradeRecord.id' := Some acct\<rparr>) (map_of (docs st) acct)), st)"
    using getGradesByStudent_through[OF wf a] by simp
  let ?w = "\<lambda>d. set_grade gtype (Some v)
                 (d\<lparr>GradeRecord.studentAccount := acct, GradeRecord.updatedAt := now,
                    GradeRecord.updatedBy := by\<rparr>)"
  let ?new = "set_grade gtype (Some v)
                ((blankGrade acct)\<lparr>GradeRecord.updatedAt := now, GradeRecord.updatedBy := by\<rparr>)"
  have step: "\<exists>d2. GradeRecord.studentAccount d2 = acct \<and>
      updateGrade st acct gtype v by now =
        (Inr (), recalculateTotal (st\<lparr>docs := put acct d2 (docs st)\<rparr>) acct now)"
  proof (cases "map_of (docs st) acct")
    case None
    have "GradeRecord.studentAccount ?new = acct"
      by (simp add: set_grade_other_fields blankGrade_def)
    moreover have "updateGrade st acct gtype v by now =
        (Inr (), recalculateTotal (st\<lparr>docs := put acct ?new (docs st)\<rparr>) acct now)"
      by (simp add: updateGrade_def read None setDoc_def a)
    ultimately show ?thesis by blast
  next
    case (Some d)
    have "GradeRecord.studentAccount (?w d) = acct"
      by (simp add: set_grade_other_fields)
    moreover have "updateGrade st acct gtype v by now =
        (Inr (), recalculateTotal (st\<lparr>docs := put acct (?w d) (docs st)\<rparr>) acct now)"
      by (simp add: updateGrade_def read Some updateDoc_def a)
    ultimately show ?thesis by blast
  qed
  then obtain d2 where d2: "GradeRecord.studentAccount d2 = acct"
    and call: "updateGrade st acct gtype v by now =
        (Inr (), recalculateTotal (st\<lparr>docs := put acct d2 (docs st)\<rparr>) acct now)"
    by blast
  let ?st2 = "st\<lparr>docs := put acct d2 (docs st)\<rparr>"
  have wf2: "wf_grades (docs ?st2)"
    using wf_grades_put[OF wf d2] by simp
  have quiet2: "faults ?st2 = []" using quiet by simp
  have at: "map_of (docs ?st2) acct = Some d2" by (simp add: map_of_put)
  let ?d3 = "d2\<lparr>total := Some (calculateTotal (d2\<lparr>GradeRecord.id' := Some acct\<rparr>)),
                GradeRecord.updatedAt := now\<rparr>"
  have r: "recalculateTotal ?st2 acct now = ?st2\<lparr>docs := put acct ?d3 (docs ?st2)\<rparr>"
    by (rule recalculateTotal_no_faults[OF wf2 quiet2 at])
  have "GradeRecord.studentAccount ?d3 = acct" using d2 by simp
  from wf_grades_put[OF wf2 this] have "wf_grades (docs (recalculateTotal ?st2 acct now))"
    unfolding r by simp
  moreover have "faults (recalculateTotal ?st2 acct now) = []"
    unfolding r using quiet by simp
  ultimately show ?thesis using call by simp
qed

lemma updateEach_no_faults:
  assumes "wf_grades (docs st)" and "faults st = []"
  shows "fst (updateEach st gs by now) = True"
  using assms
proof (induction gs arbitrary: st)
  case Nil
  then show ?case by simp
next
  case (Cons g gs)
  obtain st1 where s: "updateGrade st (GradeUpdate.studentAccount g) (gradeType g) (value g) by now
       = (Inr (), st1)" "wf_grades (docs st1)" "faults st1 = []"
    using updateGrade_no_faults[OF Cons.prems] by blast
  from Cons.IH[OF s(2,3)] show ?case
    by (simp add: s(1) split: prod.splits)
qed

text \<open>
  C4 (amended). A batch in which three rows pass validation and one fails it returns
  \<^verbatim>\<open>success = false\<close>, \<^verbatim>\<open>processedCount = 3\<close> and one error, and leaves the store as
  it was. Three rows that all pass validation, submitted to a well-formed store whose
  accesses go through, return \<^verbatim>\<open>success = true\<close> and \<^verbatim>\<open>processedCount = 3\<close>.
\<close>

theorem bulk_import_three_and_one:
  "(length (filter isl (rowOutcomes pn gtype batch)) = 1 \<and>
    length (filter (\<lambda>out. \<not> isl out) (rowOutcomes pn gtype batch)) = 3 \<longrightarrow>
      \<not> success (fst (processExcelUpload pn st batch gtype by now)) \<and>
      processedCount (fst (processExcelUpload pn st batch gtype by now)) = 3 \<and>
      length (errors (fst (processExcelUpload pn st batch gtype by now))) = 1 \<and>
      snd (processExcelUpload pn st batch gtype by now) = st) \<and>
   (length alone = 3 \<and> (\<forall>out \<in> set (rowOutcomes pn gtype alone). \<not> isl out) \<and>
    wf_grades (docs st) \<and> faults st = [] \<longrightarrow>
      success (fst (processExcelUpload pn st alone gtype by now)) \<and>
      processedCount (fst (processExcelUpload pn st alone gtype by now)) = 3)"
proof (intro conjI impI)
  assume "length (filter isl (rowOutcomes pn gtype batch)) = 1 \<and>
    length (filter (\<lambda>out. \<not> isl out) (rowOutcomes pn gtype batch)) = 3"
  then have one: "length (filter isl (rowOutcomes pn gtype batch)) = 1"
    and three: "length (filter (\<lambda>out. \<not> isl out) (rowOutcomes pn gtype batch)) = 3"
    by simp_all
  from one have "filter isl (rowOutcomes pn gtype batch) \<noteq> []" by auto
  then have "\<exists>out \<in> set (rowOutcomes pn gtype batch). isl out"
    by (simp add: filter_empty_conv)
  from upload_rejected[OF this, of st "by" now] one three
  show "\<not> success (fst (processExcelUpload pn st batch gtype by now))"
    and "processedCount (fst (processExcelUpload pn st batch gtype by now)) = 3"
    and "length (errors (fst (processExcelUpload pn st batch gtype by now))) = 1"
    and "snd (processExcelUpload pn st batch gtype by now) = st"
    by simp_all
next
  assume h: "length alone = 3 \<and> (\<forall>out \<in> set (rowOutcomes pn gtype alone). \<not> isl out) \<and>
    wf_grades (docs st) \<and> faults st = []"
  obtain errs valid where v: "validateRows pn gtype 0 alone ([], []) = (errs, valid)"
    and errs: "length errs = length (filter isl (rowOutcomes pn gtype alone))"
    and valid: "length valid = length (filter (\<lambda>out. \<not> isl out) (rowOutcomes pn gtype alone))"
    by (rule validateRows_counts)
  have none: "filter isl (rowOutcomes pn gtype alone) = []"
    using h by (simp add: filter_empty_conv)
  then have e: "errs = []" using errs by simp
  have "filter (\<lambda>out. \<not> isl out) (rowOutcomes pn gtype alone) = rowOutcomes pn gtype alone"
    using h by (simp add: filter_id_conv)
  then have n: "length valid = 3"
    using valid h by (simp add: rowOutcomes_def)
  have "fst (updateEach st valid by now) = True"
    using h by (intro updateEach_no_faults) simp_all
  then have b: "fst (batchUpdateGrades st valid by now) = Inr ()"
    by (cases "updateEach st valid by now") (simp add: batchUpdateGrades_def)
  show "success (fst (processExcelUpload pn st alone gtype by now))"
    and "processedCount (fst (processExcelUpload pn st alone gtype by now)) = 3"
    using b n
    by (cases "batchUpdateGrades st valid by now"; simp add: processExcelUpload_def v e)+
qed

theorem bulk_import_three_and_one_witness:
  "length (filter isl (rowOutcomes printWholeNumber Midterm (threeRows @ [rowWithoutAccount]))) = 1 \<and>
   length threeRows = 3 \<and>
   \<not> success (fst (processExcelUpload printWholeNumber emptyGrades
                     (threeRows @ [rowWithoutAccount]) Midterm ''gv'' 1)) \<and>
   processedCount (fst (processExcelUpload printWholeNumber emptyGrades
                          (threeRows @ [rowWithoutAccount]) Midterm ''gv'' 1)) = 3 \<and>
   length (errors (fst (processExcelUpload printWholeNumber emptyGrades
                          (threeRows @ [rowWithoutAccount]) Midterm ''gv'' 1))) = 1 \<and>
   success (fst (processExcelUpload printWholeNumber emptyGrades threeRows Midterm ''gv'' 1)) \<and>
   processedCount (fst (processExcelUpload printWholeNumber emptyGrades threeRows
                          Midterm ''gv'' 1)) = 3"
proof -
  let ?batch = "threeRows @ [rowWithoutAccount]"
  have one: "length (filter isl (rowOutcomes printWholeNumber Midterm ?batch)) = 1"
    by code_simp
  have three: "length (filter (\<lambda>out. \<not> isl out) (rowOutcomes printWholeNumber Midterm ?batch)) = 3"
    by code_simp
  have len: "length threeRows = 3"
    by (simp add: threeRows_def)
  have valid: "\<forall>out \<in> set (rowOutcomes printWholeNumber Midterm threeRows). \<not> isl out"
    by code_simp
  have wf: "wf_grades (docs emptyGrades)"
    by (simp add: wf_grades_def emptyGrades_def)
  have quiet: "faults emptyGrades = []"
    by (simp add: emptyGrades_def)
  note both = bulk_import_three_and_one[of printWholeNumber Midterm ?batch emptyGrades
      "''gv''" 1 threeRows]
  have rejected: "\<not> success (fst (processExcelUpload printWholeNumber emptyGrades ?batch Midterm ''gv'' 1)) \<and>
      processedCount (fst (processExcelUpload printWholeNumber emptyGrades ?batch Midterm ''gv'' 1)) = 3 \<and>
      length (errors (fst (processExcelUpload printWholeNumber emptyGrades ?batch Midterm ''gv'' 1))) = 1 \<and>
      snd (processExcelUpload printWholeNumber emptyGrades ?batch Midterm ''gv'' 1) = emptyGrades"
    by (rule mp[OF conjunct1[OF both]]) (intro conjI one three)
  have accepted: "success (fst (processExcelUpload printWholeNumber emptyGrades threeRows Midterm ''gv'' 1)) \<and>
      processedCount (fst (processExcelUpload printWholeNumber emptyGrades threeRows Midterm ''gv'' 1)) = 3"
    by (rule mp[OF conjunct2[OF both]]) (intro conjI len valid wf quiet)
  show ?thesis
    by (intro conjI one len conjunct1[OF rejected] conjunct1[OF conjunct2[OF rejected]]
        conjunct1[OF conjunct2[OF conjunct2[OF rejected]]] conjunct1[OF accepted]
        conjunct2[OF accepted])
qed

text \<open>
  C4 as stated fails in its count: on the three sample rows and the row without an
  account the import reports the three rows that passed validation, not 0.
\<close>

theorem bulk_import_reports_valid_rows:
  "\<not> success (fst (processExcelUpload printWholeNumber emptyGrades
                     (threeRows @ [rowWithoutAccount]) Midterm ''gv'' 1)) \<and>
   length (errors (fst (processExcelUpload printWholeNumber emptyGrades
                          (threeRows @ [rowWithoutAccount]) Midterm ''gv'' 1))) = 1 \<and>
   processedCount (fst (processExcelUpload printWholeNumber emptyGrades
                          (threeRows @ [rowWithoutAccount]) Midterm ''gv'' 1)) = 3 \<and>
   processedCount (fst (processExcelUpload printWholeNumber emptyGrades
                          (threeRows @ [rowWithoutAccount]) Midterm ''gv'' 1)) \<noteq> 0"
  by code_simp

subsection \<open>Scope of a group leader\<close>

text \<open>
  C1. For a signed-in subject whose permission has the role of group leader and allows
  marking attendance, and a target student: the check that enables the controls of the
  target allows the subject exactly when both are found on the roster and the group of
  the target is the group of the subject; and for a subject and a target on the roster,
  the handlers of marking attendance and of updating participation let the request
  through if and only if the group of the target is the group of the subject. In
  particular a leader of group A is allowed on a student of group A and refused on a
  student of group B.
\<close>

theorem group_leader_scope:
  assumes leader: "StudentPermission.role p = Role_group_leader" "canMarkAttendance p"
    and subject: "AuthUser.studentAccount u = Some a" "a \<noteq> []"
  shows "(canInteractWithStudent (Some u) (Some p) students acct \<longleftrightarrow>
            (\<exists>s t. find (\<lambda>x. Student.account x = a) students = Some s \<and>
                   find (\<lambda>x. Student.account x = acct) students = Some t \<and>
                   Student.group t = Student.group s)) \<and>
         (\<forall>s t. find (\<lambda>x. Student.account x = a) students = Some s \<and>
                find (\<lambda>x. Student.account x = acct) students = Some t \<longrightarrow>
            (allowed (fst (handleAttendanceChange (Some u) (Some p) students st today now
                             acct present))
               \<longleftrightarrow> Student.group t = Student.group s) \<and>
            (allowed (fst (handleParticipationChange (Some u) (Some p) students st today now
                             acct n))
               \<longleftrightarrow> Student.group t = Student.group s))"
proof -
  have same: "(\<lambda>x. Some (Student.account x) = AuthUser.studentAccount u) =
              (\<lambda>x. Student.account x = a)"
    using subject(1) by auto
  have c: "canInteractWithStudent (Some u) (Some p) students acct \<longleftrightarrow>
            (\<exists>s t. find (\<lambda>x. Student.account x = a) students = Some s \<and>
                   find (\<lambda>x. Student.account x = acct) students = Some t \<and>
                   Student.group t = Student.group s)"
    using leader subject
    by (cases "find (\<lambda>x. Student.account x = a) students";
        cases "find (\<lambda>x. Student.account x = acct) students")
       (auto simp: canInteractWithStudent_def same)
  have h: "allowed (fst (handleAttendanceChange (Some u) (Some p) students st today now acct present))
            \<longleftrightarrow> Student.group t = Student.group s"
    if "find (\<lambda>x. Student.account x = a) students = Some s"
      and "find (\<lambda>x. Student.account x = acct) students = Some t" for s t
  proof (cases "markAttendance st acct today present (actorOf u) now")
    case (Pair r st')
    then show ?thesis
      using leader subject that
      by (cases r) (auto simp: handleAttendanceChange_def allowed_def same)
  qed
  have q: "allowed (fst (handleParticipationChange (Some u) (Some p) students st today now acct n))
            \<longleftrightarrow> Student.group t = Student.group s"
    if "find (\<lambda>x. Student.account x = a) students = Some s"
      and "find (\<lambda>x. Student.account x = acct) students = Some t" for s t
  proof (cases "updateParticipation st acct today n (actorOf u) now")
    case (Pair r st')
    then show ?thesis
      using leader subject that
      by (cases r) (auto simp: handleParticipationChange_def allowed_def same)
  qed
  from c h q show ?thesis by blast
qed

theorem group_leader_scope_witness:
  "canInteractWithStudent (Some groupLeader) (Some leaderPermission) sampleRoster ''23520002'' \<and>
   \<not> canInteractWithStudent (Some groupLeader) (Some leaderPermission) sampleRoster ''23520003'' \<and>
   \<not> canInteractWithStudent (Some groupLeader) (Some leaderPermission) sampleRoster ''23529999'' \<and>
   allowed (fst (handleAttendanceChange (Some groupLeader) (Some leaderPermission) sampleRoster
                   emptyAttendance march7 1 ''23520002'' True)) \<and>
   \<not> allowed (fst (handleAttendanceChange (Some groupLeader) (Some leaderPermission) sampleRoster
                     emptyAttendance march7 1 ''23520003'' True)) \<and>
   allowed (fst (handleParticipationChange (Some groupLeader) (Some leaderPermission) sampleRoster
                   emptyAttendance march7 1 ''23520002'' 2)) \<and>
   \<not> allowed (fst (handleParticipationChange (Some groupLeader) (Some leaderPermission)
                     sampleRoster emptyAttendance march7 1 ''23520003'' 2))"
proof -
  let ?leader = "\<lparr>Student.account = ''23520001'', name = ''An'', surname = ''Nguyen'', group = ''A''\<rparr>"
  let ?same = "\<lparr>Student.account = ''23520002'', name = ''Binh'', surname = ''Tran'', group = ''A''\<rparr>"
  let ?other = "\<lparr>Student.account = ''23520003'', name = ''Chi'', surname = ''Le'', group = ''B''\<rparr>"
  have role: "StudentPermission.role leaderPermission = Role_group_leader"
    and may: "canMarkAttendance leaderPermission"
    by (simp_all add: leaderPermission_def)
  have acct: "AuthUser.studentAccount groupLeader = Some ''23520001''" and ne: "''23520001'' \<noteq> []"
    by (simp_all add: groupLeader_def accountUser_def)
  have subject: "find (\<lambda>s. Student.account s = ''23520001'') sampleRoster = Some ?leader"
    by (simp add: sampleRoster_def)
  have same: "find (\<lambda>s. Student.account s = ''23520002'') sampleRoster = Some ?same"
    by (simp add: sampleRoster_def)
  have other: "find (\<lambda>s. Student.account s = ''23520003'') sampleRoster = Some ?other"
    by (simp add: sampleRoster_def)
  have absent: "find (\<lambda>s. Student.account s = ''23529999'') sampleRoster = None"
    by (simp add: sampleRoster_def)
  note scope = group_leader_scope[OF role may acct ne, of sampleRoster _ emptyAttendance march7 1 True 2]
  from scope[of "''23520002''"] scope[of "''23520003''"] scope[of "''23529999''"]
    subject same other absent
  show ?thesis
    by simp
qed

subsection \<open>Sign-in with an unknown account\<close>

text \<open>
  C2 (amended). Account login has no strict mode: it takes the account and nothing else.
  For an account that is not on the roster it returns a provisional user with the role
  of student whenever the roster read goes through, and also when the read is rejected
  with an error that mentions \<^verbatim>\<open>permission\<close>; it fails, with the message of the
  failure, only when the read is rejected with another error.
\<close>

theorem unknown_account_login:
  assumes "map_of (docs st) acct = None"
  shows "(fst (access st) = None \<longrightarrow>
            (\<exists>u. fst (signInWithAccount st acct) = Inr u \<and> AuthUser.role u = Role_student \<and>
                 AuthUser.studentAccount u = Some acct \<and> uid u = acct)) \<and>
         (\<forall>e. fst (access st) = Some e \<and>
              (includesText (code e) ''permission'' \<or>
               includesText (fserror.message e) ''permission'') \<longrightarrow>
            (\<exists>u. fst (signInWithAccount st acct) = Inr u \<and> AuthUser.role u = Role_student \<and>
                 AuthUser.studentAccount u = Some acct \<and> uid u = acct)) \<and>
         (\<forall>e. fst (access st) = Some e \<and>
              \<not> includesText (code e) ''permission'' \<and>
              \<not> includesText (fserror.message e) ''permission'' \<longrightarrow>
            fst (signInWithAccount st acct) = Inl (LoginFailed (fserror.message e)))"
proof -
  obtain f st1 where a: "access st = (f, st1)" by (cases "access st")
  have same: "docs st1 = docs st"
    using a by (cases "faults st") (auto simp: access_def)
  show ?thesis
  proof (cases f)
    case None
    then show ?thesis
      using a same assms by (simp add: signInWithAccount_def getDoc_def accountUser_def)
  next
    case (Some e)
    then show ?thesis
      using a by (simp add: signInWithAccount_def getDoc_def accountUser_def)
  qed
qed

theorem unknown_account_login_witness:
  "map_of (docs emptyRoster) ''23529999'' = None \<and> fst (access emptyRoster) = None \<and>
   (\<exists>u. fst (signInWithAccount emptyRoster ''23529999'') = Inr u \<and>
        AuthUser.role u = Role_student \<and> AuthUser.studentAccount u = Some ''23529999'' \<and>
        uid u = ''23529999'')"
proof (intro conjI)
  show unknown: "map_of (docs emptyRoster) ''23529999'' = None"
    by (simp add: emptyRoster_def)
  show through: "fst (access emptyRoster) = None"
    by (simp add: emptyRoster_def access_def)
  from mp[OF conjunct1[OF unknown_account_login[OF unknown]] through]
  show "\<exists>u. fst (signInWithAccount emptyRoster ''23529999'') = Inr u \<and>
        AuthUser.role u = Role_student \<and> AuthUser.studentAccount u = Some ''23529999'' \<and>
        uid u = ''23529999''" .
qed

text \<open>
  C2 as stated fails: on an account that is not on the roster the login does what the
  specification describes for the legacy mode and not what it describes for
  \<^verbatim>\<open>strictRosterLookup = true\<close>, and there is no argument to ask for the latter.
\<close>

theorem no_strict_roster_lookup:
  "outcome (fst (signInWithAccount emptyRoster ''23529999'')) \<noteq>
     resolve_unknown_spec True ''23529999'' \<and>
   outcome (fst (signInWithAccount emptyRoster ''23529999'')) =
     resolve_unknown_spec False ''23529999''"
  by code_simp

end
